theory Spec2Isabelle
  imports Complex_Main "HOL-Library.Char_ord" "HOL-Library.List_Lexorder" "HOL-Library.Log_Nat"
begin

section \<open>Resume insight extraction and assessment pipeline (server.py)\<close>

text \<open>
  Numbers are rationals throughout. The strength score is a multiple of 1/4 not above
  10, which Python's floats compute exactly. The quiz scores are quotients that floats
  round, and the graders are modelled with that rounding (\<open>fl\<close> below). The job-match
  percentage is kept as the exact quotient: what is stated of it (its bounds, the values
  0 and 100, the order of the catalog's percentages after rounding to two decimals) is
  the same for the float.
\<close>

subsection \<open>Data model\<close>

record education_entry =
  description :: string
  year :: "int option"

record work_entry =
  role :: string
  wyear :: "int option"
  duration :: int

subsection \<open>Scoring engine: strength score\<close>

text \<open>Python's \<^verbatim>\<open>round(x, 2)\<close>: two decimals, ties to the even neighbour.\<close>

definition py_round2 :: "rat \<Rightarrow> rat" where
  "py_round2 x =
     (let y = x * 100; f = \<lfloor>y\<rfloor>; d = y - of_int f
      in of_int (if d < 1 / 2 then f
                 else if 1 / 2 < d then f + 1
                 else if even f then f else f + 1) / 100)"

text \<open>
  \<^verbatim>\<open>
  def calculate_strength_score(tech_stacks, education, experience) -> float:
      score = 0.0
      score += min(len(tech_stacks) * 0.5, 4.0)      # 40%
      score += min(len(education) * 1.0, 3.0)        # 30%
      score += min(len(experience) * 0.75, 3.0)      # 30%
      return round(min(score, 10.0), 2)
  \<close>
\<close>

definition calculate_strength_score ::
  "string list \<Rightarrow> education_entry list \<Rightarrow> work_entry list \<Rightarrow> rat" where
  "calculate_strength_score tech_stacks education experience =
     (let score = 0;
          score = score + min (of_nat (length tech_stacks) * (1 / 2)) 4;
          score = score + min (of_nat (length education) * 1) 3;
          score = score + min (of_nat (length experience) * (3 / 4)) 3
      in py_round2 (min score 10))"

subsection \<open>Python strings\<close>

text \<open>
  A Python \<^verbatim>\<open>str\<close> is modelled as a \<^typ>\<open>string\<close> whose characters are the code
  points 0..255. The character classes below are Python's on these code points.
\<close>

text \<open>\<^verbatim>\<open>str.isspace\<close>, also the class \<^verbatim>\<open>\s\<close> of \<^verbatim>\<open>re\<close>.\<close>

definition is_space :: "char \<Rightarrow> bool" where
  "is_space c =
     (let n = (of_char c :: nat)
      in (9 \<le> n \<and> n \<le> 13) \<or> (28 \<le> n \<and> n \<le> 32) \<or> n = 133 \<or> n = 160)"

definition lower_char :: "char \<Rightarrow> char" where
  "lower_char c =
     (let n = (of_char c :: nat)
      in if (65 \<le> n \<and> n \<le> 90) \<or> (192 \<le> n \<and> n \<le> 222 \<and> n \<noteq> 215)
         then char_of (n + 32) else c)"

text \<open>\<^verbatim>\<open>s.lower()\<close>\<close>

definition lower :: "string \<Rightarrow> string" where
  "lower s = map lower_char s"

text \<open>\<^verbatim>\<open>s.strip()\<close>: leading and trailing white space removed.\<close>

definition strip :: "string \<Rightarrow> string" where
  "strip s = rev (dropWhile is_space (rev (dropWhile is_space s)))"

text \<open>\<^verbatim>\<open>s.startswith(sub)\<close>\<close>

definition startswith :: "string \<Rightarrow> string \<Rightarrow> bool" where
  "startswith s sub = (take (length sub) s = sub)"

text \<open>\<^verbatim>\<open>sub in s\<close>: \<open>sub\<close> occurs in \<open>s\<close> as a contiguous substring.\<close>

primrec py_in :: "string \<Rightarrow> string \<Rightarrow> bool" where
  "py_in sub [] = (sub = [])"
| "py_in sub (c # cs) = (startswith (c # cs) sub \<or> py_in sub cs)"

subsection \<open>Scoring engine: job match\<close>

text \<open>
  \<^verbatim>\<open>
  def calculate_job_match(user_skills, job_skills) -> tuple:
      u = set(s.strip().lower() for s in user_skills)
      j = set(s.strip().lower() for s in job_skills)
      matching = sorted(u & j)
      missing = sorted(j - u)
      match_pct = (len(matching) / len(j) * 100.0) if j else 0.0
      return match_pct, matching, missing
  \<close>
  \<^verbatim>\<open>sorted\<close> of a set of strings is the list of its elements in increasing
  lexicographic order of code points, which is the order of \<^typ>\<open>string\<close> here.
  The abbreviation \<open>skill_key\<close> stands for the source's \<^verbatim>\<open>s.strip().lower()\<close>.
\<close>

abbreviation skill_key :: "string \<Rightarrow> string" where
  "skill_key s \<equiv> lower (strip s)"

definition calculate_job_match ::
  "string list \<Rightarrow> string list \<Rightarrow> rat \<times> string list \<times> string list" where
  "calculate_job_match user_skills job_skills =
     (let u = set (map skill_key user_skills);
          j = set (map skill_key job_skills);
          matching = sorted_list_of_set (u \<inter> j);
          missing = sorted_list_of_set (j - u);
          match_pct = (if j \<noteq> {} then of_nat (length matching) / of_nat (card j) * 100 else 0)
      in (match_pct, matching, missing))"

subsection \<open>Job catalog and recommendations\<close>

record job_posting =
  job_id :: string
  title :: string
  company :: string
  job_description :: string
  required_skills :: "string list"
  experience_years :: nat
  salary_range :: string

text \<open>The fixed catalog \<^verbatim>\<open>QUANTUM_JOBS\<close>, in the order of the source.\<close>

definition QUANTUM_JOBS :: "job_posting list" where
  "QUANTUM_JOBS =
    [\<lparr>job_id = ''qjob1'', title = ''Quantum Software Engineer'', company = ''IBM Quantum'',
      job_description = ''Develop quantum algorithms and software solutions'',
      required_skills = [''Python'', ''Qiskit'', ''Machine Learning'', ''Linear Algebra'',
        ''Quantum Computing''],
      experience_years = 3, salary_range = ''$120k - $180k''\<rparr>,
     \<lparr>job_id = ''qjob2'', title = ''Quantum Research Scientist'', company = ''Google Quantum AI'',
      job_description = ''Research quantum algorithms and quantum advantage'',
      required_skills = [''Physics'', ''Python'', ''C++'', ''Mathematics'', ''Research'',
        ''Quantum Computing''],
      experience_years = 5, salary_range = ''$150k - $220k''\<rparr>,
     \<lparr>job_id = ''qjob3'', title = ''Quantum Applications Developer'',
      company = ''Rigetti Computing'',
      job_description = ''Build quantum applications for real-world problems'',
      required_skills = [''Python'', ''JavaScript'', ''Quantum Computing'', ''Cloud Computing'',
        ''APIs''],
      experience_years = 2, salary_range = ''$100k - $150k''\<rparr>,
     \<lparr>job_id = ''qjob4'', title = ''Quantum Hardware Engineer'', company = ''IonQ'',
      job_description = ''Design and optimize quantum hardware systems'',
      required_skills = [''Physics'', ''Electronics'', ''Python'', ''MATLAB'',
        ''Quantum Computing''],
      experience_years = 4, salary_range = ''$130k - $190k''\<rparr>,
     \<lparr>job_id = ''qjob5'', title = ''Quantum Product Manager'', company = ''Amazon Braket'',
      job_description = ''Lead quantum computing product development'',
      required_skills = [''Product Management'', ''Quantum Computing'', ''Business Strategy'',
        ''Python'', ''Communication''],
      experience_years = 6, salary_range = ''$140k - $200k''\<rparr>]"

record job_recommendation =
  rec_job_id :: string
  rec_title :: string
  rec_company :: string
  match_percentage :: rat
  matching_skills :: "string list"
  missing_skills :: "string list"

record resume_analysis =
  analysis_id :: string
  analysis_user_id :: string
  tech_stacks :: "string list"
  education :: "education_entry list"
  work_experience :: "work_entry list"
  strength_score :: rat
  analysis_timestamp :: int

record recommendations_response =
  recommendations :: "job_recommendation list"
  jobs_detail :: "job_posting list"

text \<open>
  The loop of \<^verbatim>\<open>get_job_recommendations\<close> over the catalog:
  \<^verbatim>\<open>
  for job in QUANTUM_JOBS:
      match_percentage, matching_skills, missing_skills = \
          calculate_job_match(user_skills, job["required_skills"])
      if match_percentage > 0:
          recommendations.append(JobRecommendation(
              job_id=job["id"], title=job["title"], company=job["company"],
              match_percentage=round(match_percentage, 2),
              matching_skills=matching_skills, missing_skills=missing_skills))
  \<close>
\<close>

fun recommend_loop ::
  "string list \<Rightarrow> job_posting list \<Rightarrow> job_recommendation list \<Rightarrow> job_recommendation list" where
  "recommend_loop user_skills [] recs = recs"
| "recommend_loop user_skills (job # jobs) recs =
     (case calculate_job_match user_skills (required_skills job) of
        (pct, matching, missing) \<Rightarrow>
          if 0 < pct
          then recommend_loop user_skills jobs
                 (recs @ [\<lparr>rec_job_id = job_id job, rec_title = title job,
                           rec_company = company job, match_percentage = py_round2 pct,
                           matching_skills = matching, missing_skills = missing\<rparr>])
          else recommend_loop user_skills jobs recs)"

subsection \<open>Errors\<close>

text \<open>
  Every exception of the source is a value: \<open>HTTPException status detail\<close> is FastAPI's
  exception that the framework turns into a response with that status; the others are
  Python's built-in exceptions, which the framework reports as status 500 when a route
  lets them escape.
\<close>

datatype error =
    HTTPException nat string
  | AttributeError string
  | ValueError string
  | JSONDecodeError

subsection \<open>Assessment data\<close>

text \<open>A JSON scalar, for the inputs and expected outputs of the coding test cases.\<close>

datatype py_value = PyInt int | PyStr string | PyBool bool | PyNone

record mcq_question =
  mcq_id :: string
  question :: string
  options :: "string list"
  correct_answer :: int
  category :: string
  difficulty :: string

record coding_question =
  code_id :: string
  code_question :: string
  template :: string
  test_cases :: "(py_value \<times> py_value) list"
  code_category :: string
  code_difficulty :: string

text \<open>
  The fallback bank. The third question of the source ends in a ket written with the
  character U+27E9, which is outside the modelled code points; it is written \<open>>\<close> here.
  No function reads the question text.
\<close>

definition MCQ_FALLBACK :: "mcq_question list" where
  "MCQ_FALLBACK =
    [\<lparr>mcq_id = ''mcq1'', question = ''What is the basic unit of quantum information?'',
      options = [''Bit'', ''Byte'', ''Qubit'', ''Gate''], correct_answer = 2,
      category = ''quantum_basics'', difficulty = ''easy''\<rparr>,
     \<lparr>mcq_id = ''mcq2'',
      question = ''Which principle allows quantum computers to process multiple states simultaneously?'',
      options = [''Entanglement'', ''Superposition'', ''Decoherence'', ''Interference''],
      correct_answer = 1, category = ''quantum_basics'', difficulty = ''medium''\<rparr>,
     \<lparr>mcq_id = ''mcq3'', question = ''Which quantum gate creates superposition from |0>?'',
      options = [''Pauli-X'', ''Pauli-Z'', ''Hadamard'', ''CNOT''], correct_answer = 2,
      category = ''quantum_gates'', difficulty = ''medium''\<rparr>]"

definition CODING_FALLBACK :: "coding_question list" where
  "CODING_FALLBACK =
    [\<lparr>code_id = ''code1'',
      code_question = ''Write a Python function that calculates the factorial of a number recursively.'',
      template = ''def factorial(n):\<newline>    # Your code here\<newline>    pass'',
      test_cases = [(PyInt 5, PyInt 120), (PyInt 0, PyInt 1), (PyInt 3, PyInt 6)],
      code_category = ''programming'', code_difficulty = ''easy''\<rparr>,
     \<lparr>code_id = ''code2'',
      code_question = ''Implement a function to check if a string is a palindrome (ignore case and spaces).'',
      template = ''def is_palindrome(s):\<newline>    # Your code here\<newline>    pass'',
      test_cases = [(PyStr ''A man a plan a canal Panama'', PyBool True),
        (PyStr ''race a car'', PyBool False), (PyStr ''Madam'', PyBool True)],
      code_category = ''programming'', code_difficulty = ''medium''\<rparr>]"

subsection \<open>Python floats in the graders\<close>

text \<open>
  A Python \<^verbatim>\<open>float\<close> is an IEEE double. The quiz scores are computed with true
  division and a multiplication by 100, whose results are in general not the exact
  quotients, so the graders are modelled with the rounding of doubles: \<open>fl x\<close> is the
  double nearest to the rational \<open>x\<close>, ties to the even mantissa, as a rational. Python's
  \<^verbatim>\<open>a / b\<close> on integers is \<open>fl (a / b)\<close> and a product of doubles is \<open>fl\<close> of the exact
  product. The mantissa has 53 bits: the value is scaled by the power of two that
  brings it between 2^52 and 2^53, rounded to an integer, and scaled back. The exponent
  range of doubles is not modelled; the scores are 0 or lie between 2^-63 and 101 for
  every list that fits in memory.
\<close>

definition round_half_even :: "rat \<Rightarrow> int" where
  "round_half_even y =
     (let f = \<lfloor>y\<rfloor>; d = y - of_int f
      in if d < 1 / 2 then f else if 1 / 2 < d then f + 1 else if even f then f else f + 1)"

text \<open>
  For \<open>x > 0\<close> with numerator \<open>p\<close> and denominator \<open>q\<close>, the bit lengths of \<open>p\<close> and
  \<open>q\<close> place \<open>x * 2^k0\<close> between 2^52 and 2^54; one more halving where needed brings it
  below 2^53.
\<close>

definition fl_exponent :: "rat \<Rightarrow> int" where
  "fl_exponent x =
     (case quotient_of x of
        (p, q) \<Rightarrow>
          (let k0 = 53 + bitlen q - bitlen p
           in if 2 ^ 53 \<le> x * power_int 2 k0 then k0 - 1 else k0))"

definition fl_pos :: "rat \<Rightarrow> rat" where
  "fl_pos x =
     (let k = fl_exponent x
      in of_int (round_half_even (x * power_int 2 k)) / power_int 2 k)"

definition fl :: "rat \<Rightarrow> rat" where
  "fl x = (if x = 0 then 0 else if 0 < x then fl_pos x else - fl_pos (- x))"

subsection \<open>Scoring engine: grading\<close>

record mcq_detail =
  question_id :: string
  detail_correct :: bool
  user_answer :: int
  detail_correct_answer :: int
  detail_category :: string

record mcq_grade =
  score :: rat
  correct :: nat
  total :: nat
  details :: "mcq_detail list"

text \<open>
  \<^verbatim>\<open>
  def grade_mcq_answers(questions, answers: Dict[str, int]):
      correct = 0
      total = len(questions)
      details = []
      for q in questions:
          qid = q.get("id")
          user_ans = answers.get(qid, -1)
          is_correct = user_ans == q.get("correct_answer")
          if is_correct:
              correct += 1
          details.append({"question_id": qid, "correct": is_correct,
              "user_answer": user_ans, "correct_answer": q.get("correct_answer"),
              "category": q.get("category")})
      return {"score": (correct / total) * 100 if total else 0,
              "correct": correct, "total": total, "details": details}
  \<close>
  The loop is \<open>grade_mcq_loop\<close>, with the counter and the detail list as accumulators.
  The score is a float: the quotient is rounded, and so is its product with 100.
\<close>

fun grade_mcq_loop ::
  "mcq_question list \<Rightarrow> (string \<rightharpoonup> int) \<Rightarrow> nat \<Rightarrow> mcq_detail list \<Rightarrow> nat \<times> mcq_detail list" where
  "grade_mcq_loop [] answers n ds = (n, ds)"
| "grade_mcq_loop (q # qs) answers n ds =
     (let qid = mcq_id q;
          user_ans = (case answers qid of None \<Rightarrow> - 1 | Some a \<Rightarrow> a);
          is_correct = (user_ans = correct_answer q)
      in grade_mcq_loop qs answers (if is_correct then n + 1 else n)
           (ds @ [\<lparr>question_id = qid, detail_correct = is_correct, user_answer = user_ans,
                   detail_correct_answer = correct_answer q, detail_category = category q\<rparr>]))"

definition grade_mcq_answers :: "mcq_question list \<Rightarrow> (string \<rightharpoonup> int) \<Rightarrow> mcq_grade" where
  "grade_mcq_answers questions answers =
     (let n_total = length questions;
          (n_correct, ds) = grade_mcq_loop questions answers 0 []
      in \<lparr>score = (if n_total \<noteq> 0 then fl (fl (of_nat n_correct / of_nat n_total) * 100) else 0),
          correct = n_correct, total = n_total, details = ds\<rparr>)"

record coding_detail =
  code_question_id :: string
  code_score :: nat
  max_score :: nat
  feedback :: string

record coding_grade =
  coding_score :: rat
  coding_details :: "coding_detail list"

text \<open>
  \<^verbatim>\<open>
  def grade_coding_answers(questions, answers: Dict[str, str]):
      total = len(questions)
      score = 0
      details = []
      for q in questions:
          qid = q.get("id")
          user_code = answers.get(qid, "") or ""
          code_score = 0
          if len(user_code.strip()) > 20:
              code_score += 30
          if "def " in user_code or "function " in user_code:
              code_score += 30
          if "return" in user_code:
              code_score += 40
          score += code_score
          details.append({"question_id": qid, "score": code_score, "max_score": 100,
              "feedback": "Code structure looks good!" if code_score > 60
                          else "Could use improvement in structure."})
      return {"score": (score / (total * 100)) * 100 if total else 0, "details": details}
  \<close>
  The body of the loop that computes \<^verbatim>\<open>code_score\<close> is \<open>code_points\<close>.
\<close>

definition code_points :: "string \<Rightarrow> nat" where
  "code_points user_code =
     (let code_score = 0;
          code_score = (if 20 < length (strip user_code) then code_score + 30 else code_score);
          code_score = (if py_in ''def '' user_code \<or> py_in ''function '' user_code
                        then code_score + 30 else code_score);
          code_score = (if py_in ''return'' user_code then code_score + 40 else code_score)
      in code_score)"

fun grade_coding_loop ::
  "coding_question list \<Rightarrow> (string \<rightharpoonup> string) \<Rightarrow> nat \<Rightarrow> coding_detail list
     \<Rightarrow> nat \<times> coding_detail list" where
  "grade_coding_loop [] answers pts ds = (pts, ds)"
| "grade_coding_loop (q # qs) answers pts ds =
     (let qid = code_id q;
          user_code = (case answers qid of None \<Rightarrow> [] | Some c \<Rightarrow> c);
          code_score = code_points user_code
      in grade_coding_loop qs answers (pts + code_score)
           (ds @ [\<lparr>code_question_id = qid, code_score = code_score, max_score = 100,
                   feedback = (if 60 < code_score then ''Code structure looks good!''
                               else ''Could use improvement in structure.'')\<rparr>]))"

definition grade_coding_answers ::
  "coding_question list \<Rightarrow> (string \<rightharpoonup> string) \<Rightarrow> coding_grade" where
  "grade_coding_answers questions answers =
     (let n_total = length questions;
          (pts, ds) = grade_coding_loop questions answers 0 []
      in \<lparr>coding_score =
            (if n_total \<noteq> 0 then fl (fl (of_nat pts / of_nat (n_total * 100)) * 100) else 0),
          coding_details = ds\<rparr>)"

subsection \<open>Session and result store\<close>

text \<open>
  Instants (\<^verbatim>\<open>datetime\<close>) are integers, in microseconds; \<^verbatim>\<open>timedelta(minutes=30)\<close>
  is 1800000000. The optional database mirror is not modelled: every call of it is
  wrapped in a handler that logs and continues, and no route reads its result on the
  paths below.
\<close>

record test_session =
  sess_id :: string
  sess_user_id :: string
  mcq_questions :: "mcq_question list"
  coding_questions :: "coding_question list"
  duration_minutes :: int
  status :: string
  start_time :: int
  expires_at :: int

text \<open>
  What a slot of \<^verbatim>\<open>test_sessions\<close> can hold. \<^verbatim>\<open>sess.dict()\<close> is a plain Python
  \<^verbatim>\<open>dict\<close>: its entries are read with \<^verbatim>\<open>d["key"]\<close>, and reading an attribute
  \<^verbatim>\<open>d.key\<close> raises \<^verbatim>\<open>AttributeError\<close>. A \<^verbatim>\<open>TestSession\<close> model object has the
  fields as attributes.
\<close>

datatype session_object = DictObject test_session | ModelObject test_session

record test_submission =
  session_id :: string
  mcq_answers :: "string \<rightharpoonup> int"
  coding_answers :: "string \<rightharpoonup> string"

record test_result =
  result_session_id :: string
  result_user_id :: string
  mcq_results :: mcq_grade
  coding_results :: coding_grade
  total_score :: rat
  timestamp :: int
  duration_taken :: nat

record server_state =
  resume_data :: "string \<rightharpoonup> resume_analysis"
  test_sessions :: "string \<rightharpoonup> session_object"
  test_results :: "string \<rightharpoonup> test_result"
  job_recommendations_data :: "string \<rightharpoonup> job_recommendation list"

text \<open>
  \<^verbatim>\<open>
  async def get_job_recommendations(user_id: str):
      if user_id not in resume_data:
          raise HTTPException(status_code=404, detail="Resume analysis not found")
      user_skills = resume_data[user_id]["tech_stacks"]
      recommendations = []
      for job in QUANTUM_JOBS: ...
      recommendations.sort(key=lambda x: x.match_percentage, reverse=True)
      recommendations = recommendations[:3]
      job_recommendations_data[user_id] = [rec.dict() for rec in recommendations]
      return {"recommendations": recommendations, "jobs_detail": QUANTUM_JOBS}
  \<close>
  Python's \<^verbatim>\<open>list.sort\<close> is stable, also with \<^verbatim>\<open>reverse=True\<close>: elements with equal
  keys keep their order. That is the stable insertion sort \<^const>\<open>sort_key\<close> on the
  negated key.
\<close>

definition get_job_recommendations ::
  "server_state \<Rightarrow> string \<Rightarrow> server_state \<times> (error + recommendations_response)" where
  "get_job_recommendations st user_id =
     (case resume_data st user_id of
        None \<Rightarrow> (st, Inl (HTTPException 404 ''Resume analysis not found''))
      | Some analysis \<Rightarrow>
          (let user_skills = tech_stacks analysis;
               recs = recommend_loop user_skills QUANTUM_JOBS [];
               recs = sort_key (\<lambda>x. - match_percentage x) recs;
               recs = take 3 recs
           in (st\<lparr>job_recommendations_data := (job_recommendations_data st)(user_id \<mapsto> recs)\<rparr>,
               Inr \<lparr>recommendations = recs, jobs_detail = QUANTUM_JOBS\<rparr>)))"

record question_set =
  gen_mcq_questions :: "mcq_question list"
  gen_coding_questions :: "coding_question list"

record start_response =
  resp_session_id :: string
  resp_mcq_questions :: "mcq_question list"
  resp_coding_questions :: "coding_question list"
  resp_duration_minutes :: int

text \<open>
  \<^verbatim>\<open>
  async def start_test(user_id: str = Form(...)):
      gen = await mistral_generate_questions(n_mcq=3, n_coding=2) if MISTRAL_API_KEY \
            else {"mcq_questions": MCQ_FALLBACK, "coding_questions": CODING_FALLBACK}
      mcq_questions = gen.get("mcq_questions", [])
      coding_questions = gen.get("coding_questions", [])
      sess = TestSession(id=str(uuid.uuid4()), user_id=user_id,
                         mcq_questions=mcq_questions, coding_questions=coding_questions)
      # Store as dictionary instead of Pydantic object
      test_sessions[sess.id] = sess.dict()
      return {"session_id": sess.id, "mcq_questions": mcq_questions,
              "coding_questions": coding_questions, "duration_minutes": sess.duration_minutes}
  \<close>
  The environment is passed in: \<open>generated\<close> is \<open>None\<close> when no API key is configured and
  otherwise what \<^verbatim>\<open>mistral_generate_questions\<close> returned; \<open>new_id\<close> is the fresh UUID;
  \<open>now_start\<close> and \<open>now_expiry\<close> are the two clock readings of the default factories of
  \<^verbatim>\<open>start_time\<close> and \<^verbatim>\<open>expires_at\<close>.
\<close>

definition start_test ::
  "server_state \<Rightarrow> question_set option \<Rightarrow> string \<Rightarrow> int \<Rightarrow> int \<Rightarrow> string
     \<Rightarrow> server_state \<times> start_response" where
  "start_test st generated new_id now_start now_expiry user_id =
     (let gen = (case generated of
                   Some g \<Rightarrow> g
                 | None \<Rightarrow> \<lparr>gen_mcq_questions = MCQ_FALLBACK,
                            gen_coding_questions = CODING_FALLBACK\<rparr>);
          mcq = gen_mcq_questions gen;
          coding = gen_coding_questions gen;
          sess = \<lparr>sess_id = new_id, sess_user_id = user_id, mcq_questions = mcq,
                  coding_questions = coding, duration_minutes = 30, status = ''active'',
                  start_time = now_start, expires_at = now_expiry + 1800000000\<rparr>
      in (st\<lparr>test_sessions := (test_sessions st)(sess_id sess \<mapsto> DictObject sess)\<rparr>,
          \<lparr>resp_session_id = sess_id sess, resp_mcq_questions = mcq,
           resp_coding_questions = coding, resp_duration_minutes = duration_minutes sess\<rparr>))"

text \<open>
  \<^verbatim>\<open>
  async def submit_test(submission: TestSubmission):
      if submission.session_id not in test_sessions:
          raise HTTPException(status_code=404, detail="Test session not found")
      session = test_sessions[submission.session_id]
      # Expiry check - use dot notation for Pydantic model attributes
      now = datetime.utcnow()
      if session.expires_at and now > session.expires_at:
          session.status = "expired"
      if session.status != "active":
          raise HTTPException(status_code=400, detail="Test session is not active")
      mcq_results = grade_mcq_answers(session.mcq_questions, submission.mcq_answers)
      coding_results = grade_coding_answers(session.coding_questions, submission.coding_answers)
      total_score = round(mcq_results["score"] * 0.6 + coding_results["score"] * 0.4, 2)
      result = {"session_id": submission.session_id, "user_id": session.user_id,
                "mcq_results": mcq_results, "coding_results": coding_results,
                "total_score": total_score, "timestamp": datetime.utcnow().isoformat(),
                "duration_taken": 25}
      test_results[submission.session_id] = result
      session.status = "completed"
      return result
  \<close>
  The first attribute read is \<^verbatim>\<open>session.expires_at\<close>. On a dict it raises
  \<^verbatim>\<open>AttributeError\<close> before anything is written; the error value carries the name of
  the attribute. On a model object the route goes on, and its writes to
  \<^verbatim>\<open>session.status\<close> change the object that the store holds. The total score is
  float arithmetic on the two float scores and the doubles nearest to 0.6 and 0.4.
\<close>

definition submit_test ::
  "server_state \<Rightarrow> int \<Rightarrow> int \<Rightarrow> test_submission \<Rightarrow> server_state \<times> (error + test_result)" where
  "submit_test st now now_stamp submission =
     (case test_sessions st (session_id submission) of
        None \<Rightarrow> (st, Inl (HTTPException 404 ''Test session not found''))
      | Some (DictObject d) \<Rightarrow> (st, Inl (AttributeError ''expires_at''))
      | Some (ModelObject s0) \<Rightarrow>
          (let s = (if expires_at s0 < now then s0\<lparr>status := ''expired''\<rparr> else s0);
               st1 = st\<lparr>test_sessions := (test_sessions st)(session_id submission \<mapsto> ModelObject s)\<rparr>
           in if status s \<noteq> ''active''
              then (st1, Inl (HTTPException 400 ''Test session is not active''))
              else
                (let mcq = grade_mcq_answers (mcq_questions s) (mcq_answers submission);
                     coding = grade_coding_answers (coding_questions s) (coding_answers submission);
                     total_sc = fl (py_round2 (fl (fl (score mcq * fl (6 / 10))
                                                    + fl (coding_score coding * fl (4 / 10)))));
                     result = \<lparr>result_session_id = session_id submission,
                               result_user_id = sess_user_id s, mcq_results = mcq,
                               coding_results = coding, total_score = total_sc,
                               timestamp = now_stamp, duration_taken = 25\<rparr>
                 in (st1\<lparr>test_results := (test_results st1)(session_id submission \<mapsto> result),
                        test_sessions := (test_sessions st1)
                          (session_id submission \<mapsto> ModelObject (s\<lparr>status := ''completed''\<rparr>))\<rparr>,
                     Inr result))))"

text \<open>The store of a freshly started process.\<close>

definition empty_state :: server_state where
  "empty_state = \<lparr>resume_data = Map.empty, test_sessions = Map.empty, test_results = Map.empty,
     job_recommendations_data = Map.empty\<rparr>"

subsection \<open>Notions used to state the properties of the recommendations\<close>

text \<open>The recommendation that the loop appends for a job.\<close>

definition recommendation_of :: "string list \<Rightarrow> job_posting \<Rightarrow> job_recommendation" where
  "recommendation_of user_skills job =
     (case calculate_job_match user_skills (required_skills job) of
        (pct, matching, missing) \<Rightarrow>
          \<lparr>rec_job_id = job_id job, rec_title = title job, rec_company = company job,
           match_percentage = py_round2 pct, matching_skills = matching,
           missing_skills = missing\<rparr>)"

text \<open>The position in the catalog of the job with a given id.\<close>

definition catalog_index :: "string \<Rightarrow> nat" where
  "catalog_index jid = length (takeWhile (\<lambda>job. job_id job \<noteq> jid) QUANTUM_JOBS)"

text \<open>
  \<open>ranks_before a b\<close>: \<open>a\<close> has the higher match percentage, or the same percentage and
  the earlier position in the catalog.
\<close>

definition ranks_before :: "job_recommendation \<Rightarrow> job_recommendation \<Rightarrow> bool" where
  "ranks_before a b =
     (match_percentage b < match_percentage a
      \<or> (match_percentage a = match_percentage b
          \<and> catalog_index (rec_job_id a) < catalog_index (rec_job_id b)))"

text \<open>A store with one analysed resume, used to instantiate the results below.\<close>

definition demo_state :: server_state where
  "demo_state = empty_state\<lparr>resume_data :=
     [''u1'' \<mapsto> \<lparr>analysis_id = ''a1'', analysis_user_id = ''u1'',
        tech_stacks = [''Python'', ''C++'', ''MATLAB''], education = [], work_experience = [],
        strength_score = 3 / 2, analysis_timestamp = 0\<rparr>]\<rparr>"

subsection \<open>Notions used to state the properties of the graders\<close>

text \<open>The answer that the MCQ loop reads for a question, and the detail it appends.\<close>

definition submitted :: "(string \<rightharpoonup> int) \<Rightarrow> mcq_question \<Rightarrow> int" where
  "submitted answers q = (case answers (mcq_id q) of None \<Rightarrow> - 1 | Some a \<Rightarrow> a)"

definition mcq_detail_of :: "(string \<rightharpoonup> int) \<Rightarrow> mcq_question \<Rightarrow> mcq_detail" where
  "mcq_detail_of answers q =
     \<lparr>question_id = mcq_id q, detail_correct = (submitted answers q = correct_answer q),
      user_answer = submitted answers q, detail_correct_answer = correct_answer q,
      detail_category = category q\<rparr>"

text \<open>The same for the coding loop.\<close>

definition answer_of :: "(string \<rightharpoonup> string) \<Rightarrow> coding_question \<Rightarrow> string" where
  "answer_of answers q = (case answers (code_id q) of None \<Rightarrow> [] | Some c \<Rightarrow> c)"

definition coding_detail_of :: "(string \<rightharpoonup> string) \<Rightarrow> coding_question \<Rightarrow> coding_detail" where
  "coding_detail_of answers q =
     \<lparr>code_question_id = code_id q, code_score = code_points (answer_of answers q),
      max_score = 100,
      feedback = (if 60 < code_points (answer_of answers q) then ''Code structure looks good!''
                  else ''Could use improvement in structure.'')\<rparr>"

subsection \<open>Heuristic parser\<close>

text \<open>
  \<^verbatim>\<open>str.splitlines()\<close> ends a line at each of the line boundaries of Python (on the
  modelled code points: LF, VT, FF, CR, FS, GS, RS, NEL), takes CR LF as one boundary,
  drops the boundaries and yields no empty last line.
\<close>

definition is_linebreak :: "char \<Rightarrow> bool" where
  "is_linebreak c =
     (let n = (of_char c :: nat) in (10 \<le> n \<and> n \<le> 13) \<or> (28 \<le> n \<and> n \<le> 30) \<or> n = 133)"

fun splitlines_from :: "string \<Rightarrow> string \<Rightarrow> string list" where
  "splitlines_from cur [] = (if cur = [] then [] else [cur])"
| "splitlines_from cur [c] = (if is_linebreak c then [cur] else [cur @ [c]])"
| "splitlines_from cur (c # d # cs) =
     (if c = CHR 0x0D \<and> d = CHR 0x0A then cur # splitlines_from [] cs
      else if is_linebreak c then cur # splitlines_from [] (d # cs)
      else splitlines_from (cur @ [c]) (d # cs))"

definition splitlines :: "string \<Rightarrow> string list" where
  "splitlines s = splitlines_from [] s"

text \<open>The classes \<^verbatim>\<open>\d\<close> and \<^verbatim>\<open>\w\<close> of \<^verbatim>\<open>re\<close> for \<^verbatim>\<open>str\<close> patterns.\<close>

definition is_digit :: "char \<Rightarrow> bool" where
  "is_digit c = (let n = (of_char c :: nat) in 48 \<le> n \<and> n \<le> 57)"

definition is_word :: "char \<Rightarrow> bool" where
  "is_word c =
     (let n = (of_char c :: nat)
      in (48 \<le> n \<and> n \<le> 57) \<or> (65 \<le> n \<and> n \<le> 90) \<or> n = 95 \<or> (97 \<le> n \<and> n \<le> 122)
         \<or> n = 170 \<or> n = 178 \<or> n = 179 \<or> n = 181 \<or> n = 185 \<or> n = 186
         \<or> (188 \<le> n \<and> n \<le> 190) \<or> (192 \<le> n \<and> n \<le> 214) \<or> (216 \<le> n \<and> n \<le> 246)
         \<or> 248 \<le> n)"

definition digit_value :: "char \<Rightarrow> int" where
  "digit_value c = int (of_char c) - 48"

text \<open>
  \<^verbatim>\<open>
  def extract_years(text: str) -> List[int]:
      years = [int(m.group()) for m in re.finditer(r"\b(19\d{2}|20\d{2})\b", text)]
      return years
  \<close>
  \<open>year_at s\<close>: the pattern without its leading \<^verbatim>\<open>\b\<close> matches at the head of \<open>s\<close>, that
  is, \<open>s\<close> starts with 19 or 20 and two digits, and the text ends there or goes on with a
  character that is not a word character. The leading \<^verbatim>\<open>\b\<close> holds where the character
  before is not a word character, which the scan carries along in \<open>prev_word\<close>. After a
  match the scan goes on behind its four digits, as \<^verbatim>\<open>finditer\<close> does.
\<close>

definition year_at :: "string \<Rightarrow> bool" where
  "year_at s =
     (case s of
        a # b # c # d # rest \<Rightarrow>
          ((a = CHR ''1'' \<and> b = CHR ''9'') \<or> (a = CHR ''2'' \<and> b = CHR ''0''))
          \<and> is_digit c \<and> is_digit d
          \<and> (case rest of [] \<Rightarrow> True | e # _ \<Rightarrow> \<not> is_word e)
      | _ \<Rightarrow> False)"

definition year_value :: "string \<Rightarrow> int" where
  "year_value s =
     1000 * digit_value (s ! 0) + 100 * digit_value (s ! 1) + 10 * digit_value (s ! 2)
       + digit_value (s ! 3)"

function scan_years :: "bool \<Rightarrow> string \<Rightarrow> int list" where
  "scan_years prev_word [] = []"
| "scan_years prev_word (c # cs) =
     (if \<not> prev_word \<and> year_at (c # cs)
      then year_value (c # cs) # scan_years True (drop 3 cs)
      else scan_years (is_word c) cs)"
  by pat_completeness auto
termination
  by (relation "measure (\<lambda>(p, s). length s)") auto

definition extract_years :: "string \<Rightarrow> int list" where
  "extract_years text = scan_years False text"

text \<open>\<^verbatim>\<open>max(years) if years else None\<close>\<close>

definition max_year :: "int list \<Rightarrow> int option" where
  "max_year years = (case years of [] \<Rightarrow> None | y # ys \<Rightarrow> Some (fold max ys y))"

text \<open>\<^verbatim>\<open>any(k.lower() in line.lower() for k in keywords)\<close>\<close>

definition has_keyword :: "string list \<Rightarrow> string \<Rightarrow> bool" where
  "has_keyword keywords line = list_ex (\<lambda>k. py_in (lower k) (lower line)) keywords"

definition education_keywords :: "string list" where
  "education_keywords =
     [''Bachelor'', ''Master'', ''PhD'', ''University'', ''College'', ''Degree'']"

text \<open>
  \<^verbatim>\<open>
  def parse_education(text: str) -> List[Dict[str, Any]]:
      education = []
      education_keywords = ["Bachelor", "Master", "PhD", "University", "College", "Degree"]
      for line in text.splitlines():
          if len(line.strip()) < 12:
              continue
          if any(k.lower() in line.lower() for k in education_keywords):
              years = extract_years(line)
              education.append({"description": line.strip(),
                                "year": max(years) if years else None})
      return education[:4]
  \<close>
\<close>

fun parse_education_loop :: "string list \<Rightarrow> education_entry list \<Rightarrow> education_entry list" where
  "parse_education_loop [] acc = acc"
| "parse_education_loop (line # lines) acc =
     (if length (strip line) < 12 then parse_education_loop lines acc
      else if has_keyword education_keywords line
      then (let years = extract_years line
            in parse_education_loop lines
                 (acc @ [\<lparr>description = strip line, year = max_year years\<rparr>]))
      else parse_education_loop lines acc)"

definition parse_education :: "string \<Rightarrow> education_entry list" where
  "parse_education text = take 4 (parse_education_loop (splitlines text) [])"

definition work_keywords :: "string list" where
  "work_keywords =
     [''Engineer'', ''Developer'', ''Manager'', ''Analyst'', ''Scientist'', ''Researcher'',
      ''Intern'']"

text \<open>
  \<^verbatim>\<open>
  def parse_work_experience(text: str) -> List[Dict[str, Any]]:
      exp = []
      work_keywords = ["Engineer", "Developer", "Manager", "Analyst", "Scientist",
                       "Researcher", "Intern"]
      for line in text.splitlines():
          if len(line.strip()) < 15:
              continue
          if any(k.lower() in line.lower() for k in work_keywords):
              years = extract_years(line)
              exp.append({"role": line.strip(),
                          "year": max(years) if years else None,
                          "duration": random.randint(1, 4)})
      return exp[:6]
  \<close>
  The random generator is an input of the model: \<open>draws k\<close> is the value that the call
  number \<open>k\<close> of \<^verbatim>\<open>random.randint(1, 4)\<close> returns in the run, and the loop counts the
  calls it has made.
\<close>

fun parse_work_experience_loop ::
  "(nat \<Rightarrow> int) \<Rightarrow> string list \<Rightarrow> nat \<Rightarrow> work_entry list \<Rightarrow> work_entry list" where
  "parse_work_experience_loop draws [] k acc = acc"
| "parse_work_experience_loop draws (line # lines) k acc =
     (if length (strip line) < 15 then parse_work_experience_loop draws lines k acc
      else if has_keyword work_keywords line
      then (let years = extract_years line
            in parse_work_experience_loop draws lines (k + 1)
                 (acc @ [\<lparr>role = strip line, wyear = max_year years, duration = draws k\<rparr>]))
      else parse_work_experience_loop draws lines k acc)"

definition parse_work_experience :: "(nat \<Rightarrow> int) \<Rightarrow> string \<Rightarrow> work_entry list" where
  "parse_work_experience draws text = take 6 (parse_work_experience_loop draws (splitlines text) 0 [])"

text \<open>
  \<^verbatim>\<open>s.upper()\<close>. The sharp s becomes \<^verbatim>\<open>SS\<close>. Two characters have an upper-case
  form outside the modelled code points (the micro sign and y with diaeresis); they are
  kept, which is the same for the search of an ASCII keyword.
\<close>

definition upper_char :: "char \<Rightarrow> string" where
  "upper_char c =
     (let n = (of_char c :: nat)
      in if (97 \<le> n \<and> n \<le> 122) \<or> (224 \<le> n \<and> n \<le> 254 \<and> n \<noteq> 247) then [char_of (n - 32)]
         else if n = 223 then ''SS''
         else [c])"

definition upper :: "string \<Rightarrow> string" where
  "upper s = concat (map upper_char s)"

definition TECH_KEYWORDS :: "string list" where
  "TECH_KEYWORDS =
     [''Python'', ''JavaScript'', ''Java'', ''C++'', ''C#'', ''Go'', ''Rust'', ''Ruby'', ''PHP'',
      ''React'', ''Angular'', ''Vue'', ''Node.js'', ''Django'', ''Flask'', ''FastAPI'', ''Spring'',
      ''Docker'', ''Kubernetes'', ''AWS'', ''Azure'', ''GCP'', ''Git'', ''Linux'', ''SQL'',
      ''MongoDB'', ''Machine Learning'', ''AI'', ''Deep Learning'', ''TensorFlow'', ''PyTorch'',
      ''Pandas'', ''NumPy'', ''Quantum Computing'', ''Qiskit'', ''Cirq'', ''Linear Algebra'',
      ''Statistics'', ''MATLAB'', ''Blockchain'', ''DevOps'', ''CI/CD'', ''Terraform'',
      ''Ansible'']"

text \<open>
  \<^verbatim>\<open>
  def parse_tech_stacks(text: str) -> List[str]:
      found = set()
      text_upper = text.upper()
      for tech in TECH_KEYWORDS:
          if tech.upper() in text_upper:
              found.add(tech)
      return sorted(found)
  \<close>
\<close>

fun parse_tech_stacks_loop :: "string list \<Rightarrow> string \<Rightarrow> string set \<Rightarrow> string set" where
  "parse_tech_stacks_loop [] text_upper found = found"
| "parse_tech_stacks_loop (tech # techs) text_upper found =
     (if py_in (upper tech) text_upper
      then parse_tech_stacks_loop techs text_upper (insert tech found)
      else parse_tech_stacks_loop techs text_upper found)"

definition parse_tech_stacks :: "string \<Rightarrow> string list" where
  "parse_tech_stacks text =
     (let text_upper = upper text;
          found = parse_tech_stacks_loop TECH_KEYWORDS text_upper {}
      in sorted_list_of_set found)"

text \<open>Two runs of the random generator, both within the range of \<^verbatim>\<open>randint(1, 4)\<close>.\<close>

definition draws_of_first_run :: "nat \<Rightarrow> int" where
  "draws_of_first_run k = 1"

definition draws_of_second_run :: "nat \<Rightarrow> int" where
  "draws_of_second_run k = 3"

subsection \<open>Notions used to state the properties of the heuristic parser\<close>

text \<open>The test that the education loop applies to a line, and the entry it appends.\<close>

definition education_line :: "string \<Rightarrow> bool" where
  "education_line line = (\<not> length (strip line) < 12 \<and> has_keyword education_keywords line)"

definition education_of_line :: "string \<Rightarrow> education_entry" where
  "education_of_line line = \<lparr>description = strip line, year = max_year (extract_years line)\<rparr>"

text \<open>The same for the work-experience loop, without the drawn duration.\<close>

definition work_line :: "string \<Rightarrow> bool" where
  "work_line line = (\<not> length (strip line) < 15 \<and> has_keyword work_keywords line)"

text \<open>
  \<open>year_occurs prev_word s y\<close>: somewhere in \<open>s\<close> stands a year 19dd or 20dd with value
  \<open>y\<close> as a whole word, that is, followed by no word character and preceded by none;
  \<open>prev_word\<close> tells whether a word character stands before \<open>s\<close>.
\<close>

definition year_occurs :: "bool \<Rightarrow> string \<Rightarrow> int \<Rightarrow> bool" where
  "year_occurs prev_word s y =
     (\<exists>p r. s = p @ r \<and> year_at r \<and> y = year_value r
        \<and> (if p = [] then \<not> prev_word else \<not> is_word (last p)))"

subsection \<open>JSON recovery\<close>

text \<open>
  \<^verbatim>\<open>json.loads\<close> belongs to Python's library, not to this program. It is a parameter
  \<open>loads\<close> of the model: \<open>loads s = Some v\<close> when \<^verbatim>\<open>json.loads(s)\<close> returns \<open>v\<close>, and
  \<open>None\<close> when it raises.
\<close>













text \<open>
  JSON values, and a \<open>loads\<close> that knows the document of the example and rejects
  every other text. It serves to instantiate the results on \<open>safe_json_loads\<close>, which
  hold for every \<open>loads\<close>.
\<close>

datatype json =
    JObject "(string \<times> json) list"
  | JArray "json list"
  | JString string
  | JNumber int
  | JBool bool
  | JNull


section \<open>Properties\<close>

subsection \<open>Strength score\<close>

lemma py_round2_quarters: "py_round2 (of_int k / 4) = of_int k / 4"
proof -
  have "(of_int k / 4 :: rat) * 100 = of_int (25 * k)" by simp
  then show ?thesis by (simp add: py_round2_def Let_def del: of_int_mult)
qed

text \<open>
  Each summand is a multiple of 1/4 and the sum never exceeds 10, so neither the final
  clamp nor the rounding changes the value.
\<close>

lemma strength_score_exact:
  "calculate_strength_score S E W =
     min (of_nat (length S) * (1 / 2)) 4 + min (of_nat (length E) * 1) 3
       + min (of_nat (length W) * (3 / 4)) 3"
proof -
  define k :: int where
    "k = min (2 * int (length S)) 16 + min (4 * int (length E)) 12 + min (3 * int (length W)) 12"
  have a: "min (of_nat (length S) * (1 / 2)) (4::rat) = of_int (min (2 * int (length S)) 16) / 4"
    by (simp add: min_def)
  have b: "min (of_nat (length E) * 1) (3::rat) = of_int (min (4 * int (length E)) 12) / 4"
    by (simp add: min_def)
  have c: "min (of_nat (length W) * (3 / 4)) (3::rat) = of_int (min (3 * int (length W)) 12) / 4"
    by (simp add: min_def)
  have sum: "min (of_nat (length S) * (1 / 2)) 4 + min (of_nat (length E) * 1) 3
       + min (of_nat (length W) * (3 / 4)) (3::rat) = of_int k / 4"
    unfolding a b c k_def by (simp add: add_divide_distrib)
  have "k \<le> 40" unfolding k_def by simp
  then have le: "(of_int k / 4 :: rat) \<le> 10" by simp
  have "calculate_strength_score S E W =
     py_round2 (min (min (of_nat (length S) * (1 / 2)) 4 + min (of_nat (length E) * 1) 3
       + min (of_nat (length W) * (3 / 4)) 3) 10)"
    unfolding calculate_strength_score_def Let_def by (simp only: add_0)
  also have "\<dots> = py_round2 (min (of_int k / 4) 10)"
    by (simp only: sum)
  also have "\<dots> = of_int k / 4" using le by (simp add: min_absorb1 py_round2_quarters)
  finally show ?thesis by (simp only: sum)
qed

text \<open>
  Claim C2. For all skill, education and work-experience lists the strength score is
  \<open>min(0.5|S|, 4) + min(1.0|E|, 3) + min(0.75|W|, 3)\<close>, clamped to at most 10 and rounded to
  two decimals (the sum is a multiple of 1/4 below 10, so it is the score itself); it lies
  between 0 and 10 and does not decrease when one of the three lists gets longer while
  the other two stay fixed.
\<close>

theorem strength_score_spec:
  "calculate_strength_score S E W =
     py_round2 (min (min (of_nat (length S) * (1 / 2)) 4 + min (of_nat (length E) * 1) 3
       + min (of_nat (length W) * (3 / 4)) 3) 10)
   \<and> calculate_strength_score S E W =
       min (of_nat (length S) * (1 / 2)) 4 + min (of_nat (length E) * 1) 3
         + min (of_nat (length W) * (3 / 4)) 3
   \<and> 0 \<le> calculate_strength_score S E W
   \<and> calculate_strength_score S E W \<le> 10
   \<and> (length S \<le> length S' \<longrightarrow> calculate_strength_score S E W \<le> calculate_strength_score S' E W)
   \<and> (length E \<le> length E' \<longrightarrow> calculate_strength_score S E W \<le> calculate_strength_score S E' W)
   \<and> (length W \<le> length W' \<longrightarrow> calculate_strength_score S E W \<le> calculate_strength_score S E W')"
proof -
  have def: "calculate_strength_score S E W =
     py_round2 (min (min (of_nat (length S) * (1 / 2)) 4 + min (of_nat (length E) * 1) 3
       + min (of_nat (length W) * (3 / 4)) 3) 10)"
    by (simp add: calculate_strength_score_def Let_def)
  have lo: "0 \<le> calculate_strength_score S E W"
    unfolding strength_score_exact by simp
  have hi: "calculate_strength_score S E W \<le> 10"
    unfolding strength_score_exact by (simp add: min_def)
  have m1: "length S \<le> length S' \<longrightarrow> calculate_strength_score S E W \<le> calculate_strength_score S' E W"
    unfolding strength_score_exact by (simp add: min_def)
  have m2: "length E \<le> length E' \<longrightarrow> calculate_strength_score S E W \<le> calculate_strength_score S E' W"
    unfolding strength_score_exact by (simp add: min_def)
  have m3: "length W \<le> length W' \<longrightarrow> calculate_strength_score S E W \<le> calculate_strength_score S E W'"
    unfolding strength_score_exact by (simp add: min_def)
  note exact = strength_score_exact [of S E W]
  from def exact lo hi m1 m2 m3 show ?thesis by (intro conjI)
qed


theorem strength_score_spec_witness:
  "length [''Python''] \<le> length [''Python'', ''Docker'']
   \<and> length ([] :: education_entry list) \<le> length [\<lparr>description = ''BSc'', year = None\<rparr>]
   \<and> length ([] :: work_entry list) \<le> length [\<lparr>role = ''Dev'', wyear = None, duration = 1\<rparr>]
   \<and> calculate_strength_score [''Python''] [] [] \<le> calculate_strength_score [''Python'', ''Docker''] [] []
   \<and> calculate_strength_score [''Python''] [] []
        \<le> calculate_strength_score [''Python''] [\<lparr>description = ''BSc'', year = None\<rparr>] []
   \<and> calculate_strength_score [''Python''] [] []
        \<le> calculate_strength_score [''Python''] [] [\<lparr>role = ''Dev'', wyear = None, duration = 1\<rparr>]"
  using strength_score_spec [of "[''Python'']" "[]" "[]" "[''Python'', ''Docker'']"
      "[\<lparr>description = ''BSc'', year = None\<rparr>]" "[\<lparr>role = ''Dev'', wyear = None, duration = 1\<rparr>]"]
  by simp

subsection \<open>Python strings: case mapping and trimming\<close>

lemma is_space_lower_char: "is_space (lower_char c) = is_space c"
proof -
  have lt: "(of_char c :: nat) < 256" by simp
  show ?thesis
    using lt by (auto simp add: is_space_def lower_char_def Let_def)
qed

lemma lower_char_idem: "lower_char (lower_char c) = lower_char c"
proof -
  have lt: "(of_char c :: nat) < 256" by simp
  show ?thesis
    using lt by (auto simp add: lower_char_def Let_def)
qed

lemma lower_idem: "lower (lower s) = lower s"
  by (simp add: lower_def lower_char_idem)

lemma lower_strip: "lower (strip s) = strip (lower s)"
proof -
  have "is_space \<circ> lower_char = is_space"
    by (rule ext) (simp add: is_space_lower_char)
  then show ?thesis
    by (simp add: lower_def strip_def dropWhile_map rev_map)
qed

lemma dropWhile_idem: "dropWhile P (dropWhile P xs) = dropWhile P xs"
  by (induction xs) auto

lemma rstrip_Cons:
  "\<not> is_space x \<Longrightarrow>
     rev (dropWhile is_space (rev (x # xs))) = x # rev (dropWhile is_space (rev xs))"
  by (simp add: dropWhile_append)

lemma strip_idem: "strip (strip s) = strip s"
proof (cases "dropWhile is_space s")
  case Nil
  show ?thesis unfolding strip_def Nil by simp
next
  case (Cons x xs)
  then have nx: "\<not> is_space x"
    by (metis hd_dropWhile list.distinct(1) list.sel(1))
  have s1: "strip s = x # rev (dropWhile is_space (rev xs))"
    unfolding strip_def Cons by (rule rstrip_Cons [OF nx])
  have "strip (strip s) = rev (dropWhile is_space (rev (x # rev (dropWhile is_space (rev xs)))))"
    unfolding s1 using nx by (simp add: strip_def)
  also have "\<dots> = x # rev (dropWhile is_space (rev (rev (dropWhile is_space (rev xs)))))"
    by (rule rstrip_Cons [OF nx])
  also have "\<dots> = x # rev (dropWhile is_space (rev xs))"
    by (simp add: dropWhile_idem)
  finally show ?thesis using s1 by simp
qed

subsection \<open>Job match\<close>

lemma job_match_eq:
  "calculate_job_match U J =
     ((if J = [] then 0
       else of_nat (card (skill_key ` set U \<inter> skill_key ` set J))
              / of_nat (card (skill_key ` set J)) * 100),
      sorted_list_of_set (skill_key ` set U \<inter> skill_key ` set J),
      sorted_list_of_set (skill_key ` set J - skill_key ` set U))"
  by (simp add: calculate_job_match_def Let_def)

lemma skill_key_fixed: "strip (skill_key s) = skill_key s \<and> lower (skill_key s) = skill_key s"
  by (metis lower_idem lower_strip strip_idem)

text \<open>
  Claim C3. For all user-skill lists and required-skill lists the match percentage lies
  between 0 and 100; it is 0 when the required list is empty; and it is exactly 100 when
  the required list is not empty and every lower-cased required skill is among the
  lower-cased user skills.
\<close>

theorem job_match_percentage:
  "0 \<le> fst (calculate_job_match U J) \<and> fst (calculate_job_match U J) \<le> 100
   \<and> (J = [] \<longrightarrow> fst (calculate_job_match U J) = 0)
   \<and> (J \<noteq> [] \<and> set (map lower J) \<subseteq> set (map lower U)
        \<longrightarrow> fst (calculate_job_match U J) = 100)"
proof -
  let ?u = "skill_key ` set U" and ?j = "skill_key ` set J"
  have le: "card (?u \<inter> ?j) \<le> card ?j"
    by (rule card_mono) auto
  have pos: "J \<noteq> [] \<Longrightarrow> 0 < card ?j"
    by (simp add: card_gt_0_iff)
  have lo: "0 \<le> fst (calculate_job_match U J)"
    by (simp add: job_match_eq)
  have hi: "fst (calculate_job_match U J) \<le> 100"
  proof (cases "J = []")
    case True
    then show ?thesis by (simp add: job_match_eq)
  next
    case False
    have "(of_nat (card (?u \<inter> ?j)) :: rat) \<le> of_nat (card ?j)"
      using le by (simp only: of_nat_le_iff)
    then have "(of_nat (card (?u \<inter> ?j)) :: rat) / of_nat (card ?j) \<le> 1"
      using pos [OF False] by (simp add: divide_le_eq_1)
    then have "(of_nat (card (?u \<inter> ?j)) :: rat) / of_nat (card ?j) * 100 \<le> 1 * 100"
      by (rule mult_right_mono) simp
    then show ?thesis using False by (simp add: job_match_eq del: times_divide_eq_left)
  qed
  have empty: "J = [] \<longrightarrow> fst (calculate_job_match U J) = 0"
    by (simp add: job_match_eq)
  have full: "J \<noteq> [] \<and> set (map lower J) \<subseteq> set (map lower U)
        \<longrightarrow> fst (calculate_job_match U J) = 100"
  proof
    assume a: "J \<noteq> [] \<and> set (map lower J) \<subseteq> set (map lower U)"
    have "?j = strip ` lower ` set J"
      by (simp add: image_image lower_strip)
    also have "\<dots> \<subseteq> strip ` lower ` set U"
    proof (rule image_mono)
      show "lower ` set J \<subseteq> lower ` set U" using a by simp
    qed
    also have "\<dots> = ?u"
      by (simp add: image_image lower_strip)
    finally have "?u \<inter> ?j = ?j" by blast
    then show "fst (calculate_job_match U J) = 100"
      using a pos by (simp add: job_match_eq)
  qed
  from lo hi empty full show ?thesis by blast
qed

theorem job_match_percentage_witness:
  "[''Python'', ''Git''] \<noteq> []
   \<and> set (map lower [''Python'', ''Git'']) \<subseteq> set (map lower [''GIT'', ''python'', ''Docker''])
   \<and> fst (calculate_job_match [''GIT'', ''python'', ''Docker''] [''Python'', ''Git'']) = 100"
proof -
  have h: "[''Python'', ''Git''] \<noteq> []
   \<and> set (map lower [''Python'', ''Git'']) \<subseteq> set (map lower [''GIT'', ''python'', ''Docker''])"
    by code_simp
  have "[''Python'', ''Git''] \<noteq> []
   \<and> set (map lower [''Python'', ''Git'']) \<subseteq> set (map lower [''GIT'', ''python'', ''Docker''])
   \<longrightarrow> fst (calculate_job_match [''GIT'', ''python'', ''Docker''] [''Python'', ''Git'']) = 100"
    using job_match_percentage [of "[''GIT'', ''python'', ''Docker'']" "[''Python'', ''Git'']"]
    by (elim conjE)
  then have "fst (calculate_job_match [''GIT'', ''python'', ''Docker''] [''Python'', ''Git'']) = 100"
    using h by (rule mp)
  with h show ?thesis by (intro conjI) (elim conjE, assumption)+
qed


text \<open>
  Claim C10. The matching and the missing list are disjoint, each is sorted and free of
  duplicates, every entry is a trimmed lower-cased skill name, their union is exactly the
  set of trimmed lower-cased required skills, and their lengths add up to the size of
  that set.
\<close>

theorem job_match_partition:
  assumes "calculate_job_match U J = (p, matching, missing)"
  shows "set matching \<inter> set missing = {}
    \<and> sorted matching \<and> distinct matching \<and> sorted missing \<and> distinct missing
    \<and> (\<forall>x \<in> set matching \<union> set missing. strip x = x \<and> lower x = x)
    \<and> set matching \<union> set missing = skill_key ` set J
    \<and> length matching + length missing = card (skill_key ` set J)"
proof -
  let ?u = "skill_key ` set U" and ?j = "skill_key ` set J"
  have m: "matching = sorted_list_of_set (?u \<inter> ?j)"
    and n: "missing = sorted_list_of_set (?j - ?u)"
    using assms by (simp_all add: job_match_eq)
  have sm: "set matching = ?u \<inter> ?j" and sn: "set missing = ?j - ?u"
    by (simp_all add: m n)
  have disj: "set matching \<inter> set missing = {}"
    unfolding sm sn by blast
  have un: "set matching \<union> set missing = ?j"
    unfolding sm sn by blast
  have fixed: "\<forall>x \<in> set matching \<union> set missing. strip x = x \<and> lower x = x"
    unfolding un using skill_key_fixed by auto
  have "length matching + length missing = card (?u \<inter> ?j) + card (?j - ?u)"
    by (simp add: m n)
  also have "\<dots> = card ((?u \<inter> ?j) \<union> (?j - ?u))"
    by (rule card_Un_disjoint [symmetric]) auto
  also have "(?u \<inter> ?j) \<union> (?j - ?u) = ?j" by blast
  finally have len: "length matching + length missing = card ?j" .
  have srt: "sorted matching \<and> distinct matching \<and> sorted missing \<and> distinct missing"
    by (simp add: m n)
  from disj srt fixed un len show ?thesis by blast
qed

theorem job_match_partition_witness:
  "calculate_job_match [''Python '', ''docker''] [''Python'', '' Git'', ''python'']
     = (50, [''python''], [''git''])
   \<and> set [''python''] \<inter> set [''git''] = {}
   \<and> length [''python''] + length [''git'']
       = card (skill_key ` set [''Python'', '' Git'', ''python''])"
proof -
  have h: "calculate_job_match [''Python '', ''docker''] [''Python'', '' Git'', ''python'']
     = (50, [''python''], [''git''])"
    by code_simp
  note r = job_match_partition [OF h]
  from r have a: "set [''python''] \<inter> set [''git''] = {}"
    by (elim conjE)
  from r have b: "length [''python''] + length [''git'']
       = card (skill_key ` set [''Python'', '' Git'', ''python''])"
    by (elim conjE)
  from h a b show ?thesis by (intro conjI)
qed

subsection \<open>Submitting a test\<close>

lemma start_test_stores_dict:
  "\<exists>s. test_sessions (fst (start_test st generated new_id t1 t2 user_id)) new_id = Some (DictObject s)
      \<and> status s = ''active'' \<and> sess_id s = new_id \<and> sess_user_id s = user_id"
  by (simp add: start_test_def Let_def)

lemma start_test_session_id:
  "resp_session_id (snd (start_test st generated new_id t1 t2 user_id)) = new_id"
  by (simp add: start_test_def Let_def)

lemma start_test_results:
  "test_results (fst (start_test st generated new_id t1 t2 user_id)) = test_results st"
  by (simp add: start_test_def Let_def)

lemma submit_test_dict:
  "test_sessions st (session_id sub) = Some (DictObject d) \<Longrightarrow>
     submit_test st now stamp sub = (st, Inl (AttributeError ''expires_at''))"
  by (simp add: submit_test_def)

text \<open>
  Claim C1 (first submit of an active session returns a result and completes the
  session, a second submit is refused with status 400). The route does not get that
  far. For every session that \<open>start_test\<close> creates, whatever the store, the questions,
  the clock and the answers are, the first \<open>submit_test\<close> raises \<open>AttributeError\<close> at
  \<^verbatim>\<open>session.expires_at\<close>, because \<open>start_test\<close> stored a dict; the store is left as it
  was, so the session stays active and no result is recorded, and a second submit raises
  the same error instead of the 400 of an inactive session.
\<close>

theorem submit_after_start_raises:
  "(let started = start_test st generated new_id t1 t2 user_id;
        st1 = fst started;
        sub = \<lparr>session_id = resp_session_id (snd started), mcq_answers = ma, coding_answers = ca\<rparr>;
        first = submit_test st1 now stamp sub;
        second = submit_test (fst first) now2 stamp2 sub
    in first = (st1, Inl (AttributeError ''expires_at''))
     \<and> second = (st1, Inl (AttributeError ''expires_at''))
     \<and> test_results st1 = test_results st
     \<and> (\<exists>s. test_sessions st1 new_id = Some (DictObject s) \<and> status s = ''active''))"
proof -
  obtain s where s: "test_sessions (fst (start_test st generated new_id t1 t2 user_id)) new_id
      = Some (DictObject s)" and act: "status s = ''active''"
    using start_test_stores_dict by blast
  have sub: "\<And>now stamp. submit_test (fst (start_test st generated new_id t1 t2 user_id)) now stamp
      \<lparr>session_id = new_id, mcq_answers = ma, coding_answers = ca\<rparr>
      = (fst (start_test st generated new_id t1 t2 user_id), Inl (AttributeError ''expires_at''))"
    by (rule submit_test_dict [where d = s]) (simp add: s)
  show ?thesis
    unfolding Let_def start_test_session_id
    using s act by (simp add: sub start_test_results)
qed

theorem submit_after_start_raises_witness:
  "submit_test (fst (start_test empty_state None ''s1'' 0 0 ''u1'')) 5 5
      \<lparr>session_id = ''s1'', mcq_answers = [''mcq1'' \<mapsto> 2, ''mcq2'' \<mapsto> 1, ''mcq3'' \<mapsto> 2],
        coding_answers = Map.empty\<rparr>
    = (fst (start_test empty_state None ''s1'' 0 0 ''u1''), Inl (AttributeError ''expires_at''))"
  using submit_after_start_raises [of empty_state None "''s1''" 0 0 "''u1''"
      "[''mcq1'' \<mapsto> 2, ''mcq2'' \<mapsto> 1, ''mcq3'' \<mapsto> 2]" Map.empty 5 5 5 5]
  by (simp add: Let_def start_test_session_id)

subsection \<open>Job recommendations\<close>

lemma recommend_loop_eq:
  "recommend_loop us jobs recs =
     recs @ map (recommendation_of us)
              (filter (\<lambda>job. 0 < fst (calculate_job_match us (required_skills job))) jobs)"
  by (induction jobs arbitrary: recs)
     (auto simp add: recommendation_of_def split: prod.splits)

lemma py_round2_pos: "1 / 100 \<le> x \<Longrightarrow> 0 < py_round2 x"
proof -
  assume "1 / 100 \<le> x"
  then have "1 \<le> x * 100" by simp
  then have "1 \<le> \<lfloor>x * 100\<rfloor>" by (simp add: le_floor_iff)
  then show ?thesis by (simp add: py_round2_def Let_def)
qed

lemma job_match_pos_ge:
  assumes "0 < fst (calculate_job_match us req)" and "length req \<le> 6"
  shows "1 / 100 \<le> fst (calculate_job_match us req)"
proof -
  let ?u = "skill_key ` set us" and ?j = "skill_key ` set req"
  have ne: "req \<noteq> []" using assms(1) by (auto simp add: job_match_eq)
  have m: "0 < card (?u \<inter> ?j)"
    using assms(1) ne by (simp add: job_match_eq zero_less_divide_iff)
  have "card ?j \<le> length req"
    by (metis card_image_le card_length le_trans List.finite_set)
  then have n: "card ?j \<le> 6" using assms(2) by simp
  have n0: "0 < card ?j" using ne by (simp add: card_gt_0_iff)
  have "(of_nat (card ?j) :: rat) \<le> of_nat (100 * 100 * card (?u \<inter> ?j))"
    unfolding of_nat_le_iff using m n by simp
  then have "(1 :: rat) / 100 \<le> of_nat (card (?u \<inter> ?j)) / of_nat (card ?j) * 100"
    using n0 by (simp add: field_simps)
  then show ?thesis using ne by (simp add: job_match_eq)
qed

lemma insort_ranks:
  assumes "sorted_wrt ranks_before ys"
    and "\<forall>y\<in>set ys. catalog_index (rec_job_id x) < catalog_index (rec_job_id y)"
  shows "sorted_wrt ranks_before (insort_key (\<lambda>r. - match_percentage r) x ys)"
  using assms
proof (induction ys)
  case Nil
  then show ?case by simp
next
  case (Cons y ys)
  show ?case
  proof (cases "match_percentage y \<le> match_percentage x")
    case True
    have "\<forall>z\<in>set (y # ys). ranks_before x z"
    proof
      fix z assume z: "z \<in> set (y # ys)"
      have "match_percentage z \<le> match_percentage y"
        using z Cons.prems(1) by (auto simp add: ranks_before_def)
      then have "match_percentage z \<le> match_percentage x" using True by simp
      moreover have "catalog_index (rec_job_id x) < catalog_index (rec_job_id z)"
        using z Cons.prems(2) by blast
      ultimately show "ranks_before x z" by (auto simp add: ranks_before_def)
    qed
    then show ?thesis using True Cons.prems(1) by simp
  next
    case False
    then have "ranks_before y x" by (simp add: ranks_before_def)
    moreover have "sorted_wrt ranks_before (insort_key (\<lambda>r. - match_percentage r) x ys)"
      using Cons by simp
    ultimately show ?thesis
      using False Cons.prems(1) by (auto simp add: set_insort_key)
  qed
qed

lemma sort_ranks:
  "sorted_wrt (\<lambda>a b. catalog_index (rec_job_id a) < catalog_index (rec_job_id b)) xs \<Longrightarrow>
     sorted_wrt ranks_before (sort_key (\<lambda>r. - match_percentage r) xs)"
  by (induction xs) (simp_all add: insort_ranks)

lemma catalog_positions: "map (\<lambda>job. catalog_index (job_id job)) QUANTUM_JOBS = [0, 1, 2, 3, 4]"
  by (simp add: QUANTUM_JOBS_def catalog_index_def)

lemma catalog_lengths: "\<forall>job\<in>set QUANTUM_JOBS. length (required_skills job) \<le> 6"
  by (simp add: QUANTUM_JOBS_def)


lemma candidates_in_catalog_order:
  "sorted_wrt (\<lambda>a b. catalog_index (rec_job_id a) < catalog_index (rec_job_id b))
     (map (recommendation_of us) (filter P QUANTUM_JOBS))"
proof -
  have id: "\<And>job. rec_job_id (recommendation_of us job) = job_id job"
    by (simp add: recommendation_of_def split: prod.splits)
  have "sorted_wrt (<) (map (\<lambda>job. catalog_index (job_id job)) QUANTUM_JOBS)"
    unfolding catalog_positions by simp
  then have "sorted_wrt (\<lambda>a b. catalog_index (job_id a) < catalog_index (job_id b)) QUANTUM_JOBS"
    by (simp add: sorted_wrt_map)
  then have "sorted_wrt (\<lambda>a b. catalog_index (job_id a) < catalog_index (job_id b))
      (filter P QUANTUM_JOBS)"
    by (rule sorted_wrt_filter)
  then show ?thesis by (simp add: sorted_wrt_map id)
qed

lemma recommendation_of_pct:
  "match_percentage (recommendation_of us job)
     = py_round2 (fst (calculate_job_match us (required_skills job)))"
  by (cases "calculate_job_match us (required_skills job)") (simp add: recommendation_of_def)

lemma ranks_before_desc: "ranks_before a b \<Longrightarrow> match_percentage b \<le> match_percentage a"
  by (auto simp add: ranks_before_def)

text \<open>
  Claim C4. For every user with a stored resume analysis the recommendation list holds
  only jobs of the fixed catalog whose match percentage is strictly positive, is sorted
  in descending order of match percentage with ties in catalog order, and has at most
  three entries.
\<close>

theorem recommendations_spec:
  assumes "resume_data st user_id = Some analysis"
  shows "\<exists>recs. snd (get_job_recommendations st user_id)
            = Inr \<lparr>recommendations = recs, jobs_detail = QUANTUM_JOBS\<rparr>
     \<and> length recs \<le> 3
     \<and> (\<forall>r\<in>set recs. 0 < match_percentage r
           \<and> (\<exists>job\<in>set QUANTUM_JOBS. r = recommendation_of (tech_stacks analysis) job
                 \<and> 0 < fst (calculate_job_match (tech_stacks analysis) (required_skills job))))
     \<and> sorted_wrt (\<lambda>a b. match_percentage b \<le> match_percentage a) recs
     \<and> sorted_wrt ranks_before recs"
proof -
  let ?us = "tech_stacks analysis"
  let ?P = "\<lambda>job. 0 < fst (calculate_job_match ?us (required_skills job))"
  let ?cs = "map (recommendation_of ?us) (filter ?P QUANTUM_JOBS)"
  let ?recs = "take 3 (sort_key (\<lambda>r. - match_percentage r) ?cs)"
  have res: "snd (get_job_recommendations st user_id)
      = Inr \<lparr>recommendations = ?recs, jobs_detail = QUANTUM_JOBS\<rparr>"
    using assms by (simp add: get_job_recommendations_def Let_def recommend_loop_eq)
  have len: "length ?recs \<le> 3" by simp
  have mem: "\<forall>r\<in>set ?recs. 0 < match_percentage r
           \<and> (\<exists>job\<in>set QUANTUM_JOBS. r = recommendation_of ?us job \<and> ?P job)"
  proof
    fix r assume "r \<in> set ?recs"
    then have "r \<in> set ?cs" by (auto dest: in_set_takeD)
    then obtain job where job: "job \<in> set QUANTUM_JOBS" "?P job" "r = recommendation_of ?us job"
      by auto
    have "1 / 100 \<le> fst (calculate_job_match ?us (required_skills job))"
      using job(1,2) catalog_lengths by (intro job_match_pos_ge) auto
    then have "0 < py_round2 (fst (calculate_job_match ?us (required_skills job)))"
      by (rule py_round2_pos)
    then have "0 < match_percentage r"
      by (simp only: job(3) recommendation_of_pct)
    then show "0 < match_percentage r
           \<and> (\<exists>job\<in>set QUANTUM_JOBS. r = recommendation_of ?us job \<and> ?P job)"
      using job by blast
  qed
  have rk: "sorted_wrt ranks_before ?recs"
    by (intro sorted_wrt_take sort_ranks candidates_in_catalog_order)
  have desc: "sorted_wrt (\<lambda>a b. match_percentage b \<le> match_percentage a) ?recs"
    by (rule sorted_wrt_mono_rel [OF _ rk]) (rule ranks_before_desc)
  from res len mem desc rk show ?thesis by blast
qed

theorem recommendations_spec_witness:
  "resume_data demo_state ''u1'' = Some \<lparr>analysis_id = ''a1'', analysis_user_id = ''u1'',
        tech_stacks = [''Python'', ''C++'', ''MATLAB''], education = [], work_experience = [],
        strength_score = 3 / 2, analysis_timestamp = 0\<rparr>
   \<and> (\<exists>recs. snd (get_job_recommendations demo_state ''u1'')
            = Inr \<lparr>recommendations = recs, jobs_detail = QUANTUM_JOBS\<rparr>
        \<and> length recs \<le> 3 \<and> sorted_wrt ranks_before recs)"
proof -
  have h: "resume_data demo_state ''u1'' = Some \<lparr>analysis_id = ''a1'', analysis_user_id = ''u1'',
        tech_stacks = [''Python'', ''C++'', ''MATLAB''], education = [], work_experience = [],
        strength_score = 3 / 2, analysis_timestamp = 0\<rparr>"
    by (simp add: demo_state_def empty_state_def)
  from recommendations_spec [OF h] obtain recs where
    "snd (get_job_recommendations demo_state ''u1'')
            = Inr \<lparr>recommendations = recs, jobs_detail = QUANTUM_JOBS\<rparr>"
    "length recs \<le> 3" "sorted_wrt ranks_before recs"
    by blast
  with h show ?thesis by blast
qed

subsection \<open>Rounding to doubles\<close>

text \<open>
  The rounding error of \<open>fl\<close> is at most 2^-53 of the value, and 0, 1 and 100 are
  doubles.
\<close>

lemma round_half_even_err: "\<bar>of_int (round_half_even y) - y\<bar> \<le> 1 / 2"
proof -
  define d where "d = y - of_int \<lfloor>y\<rfloor>"
  have a: "0 \<le> d" and b: "d < 1"
    unfolding d_def by linarith+
  have r: "round_half_even y = \<lfloor>y\<rfloor> \<or> round_half_even y = \<lfloor>y\<rfloor> + 1"
    by (simp add: round_half_even_def Let_def)
  have lo: "round_half_even y = \<lfloor>y\<rfloor> \<Longrightarrow> d \<le> 1 / 2"
    unfolding d_def by (simp add: round_half_even_def Let_def split: if_splits)
  have hi: "round_half_even y = \<lfloor>y\<rfloor> + 1 \<Longrightarrow> 1 / 2 \<le> d"
    unfolding d_def by (simp add: round_half_even_def Let_def split: if_splits)
  from r show ?thesis
  proof
    assume e: "round_half_even y = \<lfloor>y\<rfloor>"
    then have "of_int (round_half_even y) - y = - d" by (simp add: d_def)
    then show ?thesis using a lo [OF e] by simp
  next
    assume e: "round_half_even y = \<lfloor>y\<rfloor> + 1"
    then have "of_int (round_half_even y) - y = 1 - d" by (simp add: d_def)
    then show ?thesis using b hi [OF e] by simp
  qed
qed

lemma fl_exponent_lower:
  assumes "0 < x"
  shows "2 ^ 52 \<le> x * power_int 2 (fl_exponent x)"
proof -
  obtain p q where pq: "quotient_of x = (p, q)" by (cases "quotient_of x")
  have q: "0 < q" using pq by (rule quotient_of_denom_pos)
  have x: "x = of_int p / of_int q" using pq by (rule quotient_of_div)
  have p: "0 < p" using assms q unfolding x by (simp add: zero_less_divide_iff)
  define k0 where "k0 = 53 + bitlen q - bitlen p"
  show ?thesis
  proof (cases "2 ^ 53 \<le> x * power_int 2 k0")
    case True
    then have k: "fl_exponent x = k0 - 1"
      by (simp add: fl_exponent_def pq Let_def k0_def)
    have "power_int (2::rat) (k0 - 1) = power_int 2 k0 / power_int 2 1"
      by (rule power_int_diff) simp
    then have h: "power_int (2::rat) (k0 - 1) = power_int 2 k0 / 2"
      by simp
    have "(2::rat) ^ 52 = 2 ^ 53 / 2" by simp
    also have "\<dots> \<le> x * power_int 2 k0 / 2"
      using True by (simp only: divide_le_cancel) simp
    also have "\<dots> = x * power_int 2 (k0 - 1)"
      by (simp only: h times_divide_eq_right)
    finally show ?thesis unfolding k .
  next
    case False
    then have k: "fl_exponent x = k0"
      by (simp add: fl_exponent_def pq Let_def k0_def)
    have bp: "1 \<le> bitlen p" using p by (simp add: bitlen_alt_def)
    have bq: "1 \<le> bitlen q" using q by (simp add: bitlen_alt_def)
    have "(2::int) ^ nat (bitlen p - 1) \<le> p" using bitlen_bounds [OF p] by simp
    then have "(of_int ((2::int) ^ nat (bitlen p - 1)) :: rat) \<le> of_int p"
      by (simp only: of_int_le_iff)
    then have lp: "power_int 2 (bitlen p - 1) \<le> (of_int p :: rat)"
      using bp by (simp add: power_int_def)
    have "q < (2::int) ^ nat (bitlen q)" using bitlen_bounds [OF q] by simp
    then have "(of_int q :: rat) < of_int ((2::int) ^ nat (bitlen q))"
      by (simp only: of_int_less_iff)
    then have uq: "(of_int q :: rat) \<le> power_int 2 (bitlen q)"
      using bq by (simp add: power_int_def)
    have qpos: "(0::rat) < of_int q" using q by simp
    have "(2::rat) ^ 52 * of_int q \<le> 2 ^ 52 * power_int 2 (bitlen q)"
      using uq by simp
    also have "\<dots> = power_int 2 (bitlen p - 1) * power_int 2 k0"
    proof -
      have "(2::rat) ^ 52 = power_int 2 52" by simp
      then have "(2::rat) ^ 52 * power_int 2 (bitlen q) = power_int 2 (52 + bitlen q)"
        by (simp add: power_int_add)
      also have "52 + bitlen q = (bitlen p - 1) + k0" by (simp add: k0_def)
      also have "power_int (2::rat) ((bitlen p - 1) + k0)
          = power_int 2 (bitlen p - 1) * power_int 2 k0"
        by (rule power_int_add) simp
      finally show ?thesis .
    qed
    also have "\<dots> \<le> of_int p * power_int 2 k0"
      using lp by (simp add: mult_right_mono)
    finally have "(2::rat) ^ 52 * of_int q \<le> of_int p * power_int 2 k0" .
    then have "(2::rat) ^ 52 \<le> of_int p * power_int 2 k0 / of_int q"
      using qpos by (simp add: pos_le_divide_eq)
    then have "(2::rat) ^ 52 \<le> x * power_int 2 k0"
      by (simp add: x)
    then show ?thesis by (simp only: k)
  qed
qed

lemma fl_error:
  assumes "0 < x"
  shows "\<bar>fl x - x\<bar> \<le> x / 2 ^ 53"
proof -
  let ?k = "fl_exponent x"
  let ?s = "power_int (2::rat) ?k"
  let ?m = "x * ?s"
  let ?n = "of_int (round_half_even ?m) :: rat"
  have s: "0 < ?s" by simp
  have m: "2 ^ 52 \<le> ?m" using assms by (rule fl_exponent_lower)
  have f: "fl x = ?n / ?s" using assms by (simp add: fl_def fl_pos_def Let_def)
  have "fl x - x = (?n - ?m) / ?s" using s by (simp add: f diff_divide_distrib)
  then have "\<bar>fl x - x\<bar> = \<bar>?n - ?m\<bar> / ?s" using s by (simp add: abs_divide)
  also have "\<dots> \<le> (1 / 2) / ?s"
  proof (rule divide_right_mono)
    show "\<bar>?n - ?m\<bar> \<le> 1 / 2" by (rule round_half_even_err)
    show "0 \<le> ?s" using s by simp
  qed
  also have "\<dots> \<le> x / 2 ^ 53"
  proof -
    have "?s * 2 ^ 53 \<le> ?s * (2 * ?m)"
    proof -
      have "(2::rat) ^ 53 \<le> 2 * ?m" using m by simp
      then show ?thesis using s by (simp only: mult_le_cancel_left_pos)
    qed
    then have "2 ^ 53 \<le> 2 * x * ?s * ?s / ?s"
      using s by (simp add: field_simps)
    then have "(1 / 2) * 2 ^ 53 \<le> x * ?s" using s by simp
    then have "(1 / 2) / ?s \<le> x / 2 ^ 53"
      using s by (simp add: field_simps)
    then show ?thesis .
  qed
  finally show ?thesis .
qed

lemma fl_zero: "fl 0 = 0"
  by (simp add: fl_def)

lemma fl_one: "fl 1 = 1"
  by code_simp

lemma fl_hundred: "fl 100 = 100"
  by code_simp

lemma fl_nonneg: "0 \<le> x \<Longrightarrow> 0 \<le> fl x"
proof (cases "x = 0")
  case True
  then show ?thesis by (simp add: fl_zero)
next
  case False
  assume "0 \<le> x"
  with False have x: "0 < x" by simp
  have "\<bar>fl x - x\<bar> \<le> x / 2 ^ 53" using x by (rule fl_error)
  moreover have "x / 2 ^ 53 \<le> x" using x by (simp add: field_simps)
  ultimately show ?thesis by linarith
qed

text \<open>A quotient rounded, then scaled by 100 and rounded again.\<close>

lemma fl_scaled_error:
  assumes "0 \<le> q"
  shows "\<bar>fl (fl q * 100) - q * 100\<bar> \<le> q * 100 / 2 ^ 51"
proof (cases "q = 0")
  case True
  then show ?thesis by (simp add: fl_zero)
next
  case False
  with assms have q: "0 < q" by simp
  have e1: "\<bar>fl q - q\<bar> \<le> q / 2 ^ 53" using q by (rule fl_error)
  have "q / 2 ^ 53 < q" using q by (simp add: field_simps)
  with e1 have fq: "0 < fl q" by linarith
  have up: "fl q \<le> q + q / 2 ^ 53" using e1 by linarith
  have "0 < fl q * 100" using fq by simp
  then have e2: "\<bar>fl (fl q * 100) - fl q * 100\<bar> \<le> fl q * 100 / 2 ^ 53"
    by (rule fl_error)
  have "fl q * 100 / 2 ^ 53 \<le> (q + q / 2 ^ 53) * 100 / 2 ^ 53"
    using up by (simp add: divide_right_mono)
  with e2 have e3: "\<bar>fl (fl q * 100) - fl q * 100\<bar> \<le> (q + q / 2 ^ 53) * 100 / 2 ^ 53"
    by linarith
  have "fl q * 100 - q * 100 = (fl q - q) * 100" by (simp add: algebra_simps)
  then have "\<bar>fl q * 100 - q * 100\<bar> = \<bar>(fl q - q) * 100\<bar>" by (simp only:)
  also have "\<dots> = \<bar>fl q - q\<bar> * 100" by (simp only: abs_mult)
  finally have "\<bar>fl q * 100 - q * 100\<bar> = \<bar>fl q - q\<bar> * 100" .
  also have "\<dots> \<le> q / 2 ^ 53 * 100" using e1 by (simp only: mult_le_cancel_right) simp
  finally have e4: "\<bar>fl q * 100 - q * 100\<bar> \<le> q * 100 / 2 ^ 53" by simp
  have "\<bar>fl (fl q * 100) - q * 100\<bar>
      \<le> \<bar>fl (fl q * 100) - fl q * 100\<bar> + \<bar>fl q * 100 - q * 100\<bar>"
    by linarith
  also have "\<dots> \<le> (q + q / 2 ^ 53) * 100 / 2 ^ 53 + q * 100 / 2 ^ 53"
    using e3 e4 by linarith
  also have "\<dots> \<le> q * 100 / 2 ^ 51"
    using q by (simp add: field_simps)
  finally show ?thesis .
qed

subsection \<open>Grading of multiple-choice answers\<close>

lemma grade_mcq_loop_eq:
  "grade_mcq_loop qs answers n ds =
     (n + length (filter (\<lambda>q. submitted answers q = correct_answer q) qs),
      ds @ map (mcq_detail_of answers) qs)"
  by (induction qs arbitrary: n ds) (simp_all add: Let_def submitted_def mcq_detail_of_def)

lemma grade_mcq_eq:
  "grade_mcq_answers qs answers =
     \<lparr>score = (if qs = [] then 0
               else fl (fl (of_nat (length (filter (\<lambda>q. submitted answers q = correct_answer q) qs))
                      / of_nat (length qs)) * 100)),
      correct = length (filter (\<lambda>q. submitted answers q = correct_answer q) qs),
      total = length qs,
      details = map (mcq_detail_of answers) qs\<rparr>"
  by (simp add: grade_mcq_answers_def grade_mcq_loop_eq Let_def)

text \<open>
  Claim C5 (an unanswered question is graded with the sentinel -1 and never counted as
  correct; no answers give score 0, all stored correct indices give score 100, the score
  is 100 times correct count over total count, 0 without questions). The grader
  compares the sentinel with the stored index, and it computes the score in floats. So
  the statement proved is, for the question lists in which no stored correct index is
  -1: the total is the number of questions, the correct count is the number of questions
  whose submitted answer is the stored index, the score is the float
  \<^verbatim>\<open>(correct / total) * 100\<close> (0 for the empty list), which differs from
  100 * correct / total by at most that value times 2^-51, every unanswered question is
  reported with answer -1 and as not correct, an empty answer map scores exactly 0, and
  a non-empty list answered with every stored index scores exactly 100.
\<close>

theorem grade_mcq_spec:
  assumes "\<forall>q\<in>set qs. correct_answer q \<noteq> - 1"
  shows "total (grade_mcq_answers qs answers) = length qs
    \<and> correct (grade_mcq_answers qs answers)
        = length (filter (\<lambda>q. answers (mcq_id q) = Some (correct_answer q)) qs)
    \<and> score (grade_mcq_answers qs answers)
        = (if qs = [] then 0
           else fl (fl (of_nat (correct (grade_mcq_answers qs answers)) / of_nat (length qs))
                  * 100))
    \<and> \<bar>score (grade_mcq_answers qs answers)
         - of_nat (correct (grade_mcq_answers qs answers)) / of_nat (length qs) * 100\<bar>
        \<le> of_nat (correct (grade_mcq_answers qs answers)) / of_nat (length qs) * 100 / 2 ^ 51
    \<and> details (grade_mcq_answers qs answers) = map (mcq_detail_of answers) qs
    \<and> (\<forall>q\<in>set qs. answers (mcq_id q) = None \<longrightarrow>
          user_answer (mcq_detail_of answers q) = - 1 \<and> \<not> detail_correct (mcq_detail_of answers q))
    \<and> score (grade_mcq_answers qs Map.empty) = 0
    \<and> (qs \<noteq> [] \<and> (\<forall>q\<in>set qs. answers (mcq_id q) = Some (correct_answer q))
        \<longrightarrow> score (grade_mcq_answers qs answers) = 100)"
proof -
  have iff: "\<And>a q. q \<in> set qs \<Longrightarrow>
      (submitted a q = correct_answer q) = (a (mcq_id q) = Some (correct_answer q))"
    using assms by (auto simp add: submitted_def split: option.splits)
  have cnt: "\<And>a. filter (\<lambda>q. submitted a q = correct_answer q) qs
      = filter (\<lambda>q. a (mcq_id q) = Some (correct_answer q)) qs"
    by (rule filter_cong) (simp_all add: iff)
  have t: "total (grade_mcq_answers qs answers) = length qs"
    by (simp add: grade_mcq_eq)
  have c: "correct (grade_mcq_answers qs answers)
        = length (filter (\<lambda>q. answers (mcq_id q) = Some (correct_answer q)) qs)"
    by (simp add: grade_mcq_eq cnt)
  have s: "score (grade_mcq_answers qs answers)
        = (if qs = [] then 0
           else fl (fl (of_nat (correct (grade_mcq_answers qs answers)) / of_nat (length qs))
                  * 100))"
    by (simp add: grade_mcq_eq)
  have b: "\<bar>score (grade_mcq_answers qs answers)
         - of_nat (correct (grade_mcq_answers qs answers)) / of_nat (length qs) * 100\<bar>
        \<le> of_nat (correct (grade_mcq_answers qs answers)) / of_nat (length qs) * 100 / 2 ^ 51"
  proof (cases "qs = []")
    case True
    show ?thesis unfolding s using True by simp
  next
    case False
    have "(0::rat) \<le> of_nat (correct (grade_mcq_answers qs answers)) / of_nat (length qs)"
      by simp
    then show ?thesis
      unfolding s using False by (simp only: if_False) (rule fl_scaled_error)
  qed
  have d: "details (grade_mcq_answers qs answers) = map (mcq_detail_of answers) qs"
    by (simp add: grade_mcq_eq)
  have u: "\<forall>q\<in>set qs. answers (mcq_id q) = None \<longrightarrow>
          user_answer (mcq_detail_of answers q) = - 1 \<and> \<not> detail_correct (mcq_detail_of answers q)"
    using assms by (auto simp add: mcq_detail_of_def submitted_def)
  have z: "score (grade_mcq_answers qs Map.empty) = 0"
    by (simp add: grade_mcq_eq cnt fl_zero)
  have f: "qs \<noteq> [] \<and> (\<forall>q\<in>set qs. answers (mcq_id q) = Some (correct_answer q))
        \<longrightarrow> score (grade_mcq_answers qs answers) = 100"
  proof
    assume a: "qs \<noteq> [] \<and> (\<forall>q\<in>set qs. answers (mcq_id q) = Some (correct_answer q))"
    then have "filter (\<lambda>q. answers (mcq_id q) = Some (correct_answer q)) qs = qs"
      by (simp add: filter_id_conv)
    then have "correct (grade_mcq_answers qs answers) = length qs"
      using c by simp
    then show "score (grade_mcq_answers qs answers) = 100"
      using a by (simp add: s fl_one fl_hundred)
  qed
  from t c s b d u z f show ?thesis by (intro conjI)
qed

theorem grade_mcq_spec_witness:
  "list_all (\<lambda>q. correct_answer q \<noteq> - 1) MCQ_FALLBACK
   \<and> MCQ_FALLBACK \<noteq> []
   \<and> score (grade_mcq_answers MCQ_FALLBACK Map.empty) = 0
   \<and> score (grade_mcq_answers MCQ_FALLBACK [''mcq1'' \<mapsto> 2, ''mcq2'' \<mapsto> 1, ''mcq3'' \<mapsto> 2]) = 100"
proof -
  have h: "\<forall>q\<in>set MCQ_FALLBACK. correct_answer q \<noteq> - 1"
    by (simp add: MCQ_FALLBACK_def)
  have ne: "MCQ_FALLBACK \<noteq> []"
    by (simp add: MCQ_FALLBACK_def)
  have all: "\<forall>q\<in>set MCQ_FALLBACK.
      [''mcq1'' \<mapsto> 2, ''mcq2'' \<mapsto> 1, ''mcq3'' \<mapsto> 2] (mcq_id q) = Some (correct_answer q)"
    by (simp add: MCQ_FALLBACK_def)
  note r = grade_mcq_spec [OF h, of "[''mcq1'' \<mapsto> 2, ''mcq2'' \<mapsto> 1, ''mcq3'' \<mapsto> 2]"]
  from r have z: "score (grade_mcq_answers MCQ_FALLBACK Map.empty) = 0"
    by (elim conjE)
  from r have "MCQ_FALLBACK \<noteq> [] \<and> (\<forall>q\<in>set MCQ_FALLBACK.
      [''mcq1'' \<mapsto> 2, ''mcq2'' \<mapsto> 1, ''mcq3'' \<mapsto> 2] (mcq_id q) = Some (correct_answer q))
      \<longrightarrow> score (grade_mcq_answers MCQ_FALLBACK
            [''mcq1'' \<mapsto> 2, ''mcq2'' \<mapsto> 1, ''mcq3'' \<mapsto> 2]) = 100"
    by (elim conjE)
  moreover from ne all have "MCQ_FALLBACK \<noteq> [] \<and> (\<forall>q\<in>set MCQ_FALLBACK.
      [''mcq1'' \<mapsto> 2, ''mcq2'' \<mapsto> 1, ''mcq3'' \<mapsto> 2] (mcq_id q) = Some (correct_answer q))"
    by (rule conjI)
  ultimately have f: "score (grade_mcq_answers MCQ_FALLBACK
      [''mcq1'' \<mapsto> 2, ''mcq2'' \<mapsto> 1, ''mcq3'' \<mapsto> 2]) = 100"
    by (rule mp)
  from h have "list_all (\<lambda>q. correct_answer q \<noteq> - 1) MCQ_FALLBACK"
    by (simp add: list_all_iff)
  with ne z f show ?thesis by (intro conjI)
qed

text \<open>
  With a stored correct index of -1 (the question normaliser accepts any integer), the
  unanswered question is counted as correct and the empty answer map scores 100. And
  one correct answer out of the three questions of the fallback bank scores the float
  33.33333333333333, which is not 100 * 1 / 3.
\<close>

theorem grade_mcq_sentinel_counterexample:
  "score (grade_mcq_answers
      [\<lparr>mcq_id = ''mcq1'', question = ''Q'', options = [''A'', ''B''], correct_answer = - 1,
        category = ''general'', difficulty = ''medium''\<rparr>] Map.empty) = 100
   \<and> correct (grade_mcq_answers
      [\<lparr>mcq_id = ''mcq1'', question = ''Q'', options = [''A'', ''B''], correct_answer = - 1,
        category = ''general'', difficulty = ''medium''\<rparr>] Map.empty) = 1
   \<and> correct (grade_mcq_answers MCQ_FALLBACK [''mcq1'' \<mapsto> 2]) = 1
   \<and> total (grade_mcq_answers MCQ_FALLBACK [''mcq1'' \<mapsto> 2]) = 3
   \<and> score (grade_mcq_answers MCQ_FALLBACK [''mcq1'' \<mapsto> 2])
       = 2345624805922133 / 70368744177664
   \<and> score (grade_mcq_answers MCQ_FALLBACK [''mcq1'' \<mapsto> 2]) \<noteq> 100 * 1 / 3"
proof -
  let ?q = "\<lparr>mcq_id = ''mcq1'', question = ''Q'', options = [''A'', ''B''], correct_answer = - 1,
        category = ''general'', difficulty = ''medium''\<rparr>"
  have a: "score (grade_mcq_answers [?q] Map.empty) = 100"
    by (simp add: grade_mcq_eq submitted_def fl_one fl_hundred)
  have b: "correct (grade_mcq_answers [?q] Map.empty) = 1"
    by (simp add: grade_mcq_eq submitted_def)
  have c: "correct (grade_mcq_answers MCQ_FALLBACK [''mcq1'' \<mapsto> 2]) = 1"
    by (simp add: grade_mcq_eq submitted_def MCQ_FALLBACK_def)
  have t: "total (grade_mcq_answers MCQ_FALLBACK [''mcq1'' \<mapsto> 2]) = 3"
    by (simp add: grade_mcq_eq MCQ_FALLBACK_def)
  have v: "fl (fl (1 / 3) * 100) = 2345624805922133 / 70368744177664"
    by code_simp
  have s: "score (grade_mcq_answers MCQ_FALLBACK [''mcq1'' \<mapsto> 2])
       = 2345624805922133 / 70368744177664"
    using v by (simp add: grade_mcq_eq submitted_def MCQ_FALLBACK_def)
  have n: "score (grade_mcq_answers MCQ_FALLBACK [''mcq1'' \<mapsto> 2]) \<noteq> 100 * 1 / 3"
    unfolding s by simp
  from a b c t s n show ?thesis by (intro conjI)
qed

subsection \<open>Grading of coding answers\<close>

lemma grade_coding_loop_eq:
  "grade_coding_loop qs answers pts ds =
     (pts + sum_list (map (\<lambda>q. code_points (answer_of answers q)) qs),
      ds @ map (coding_detail_of answers) qs)"
  by (induction qs arbitrary: pts ds) (simp_all add: Let_def answer_of_def coding_detail_of_def)

lemma code_points_eq:
  "code_points c =
     (if 20 < length (strip c) then 30 else 0)
     + (if py_in ''def '' c \<or> py_in ''function '' c then 30 else 0)
     + (if py_in ''return'' c then 40 else 0)"
  by (simp add: code_points_def Let_def)

lemma strip_Nil: "strip [] = []"
  by (simp add: strip_def)

lemma sum_list_all_hundred:
  "\<forall>q\<in>set qs. f q = (100::nat) \<Longrightarrow> sum_list (map f qs) = length qs * 100"
  by (induction qs) simp_all

text \<open>
  Claim C6 (30 points for a stripped length above 20, 30 for a function-definition
  marker, 40 for a return statement; an empty submission scores 0, all three criteria
  score 100; the overall score is 100 times the sum of the points over 100 times the
  number of questions, 0 when there are none). The points are as claimed. The overall
  score is computed in floats, so the statement proved for it is: it is the float
  \<^verbatim>\<open>(sum / (count * 100)) * 100\<close> (0 for no questions), which differs from
  100 * sum / (100 * count) by at most that value times 2^-51, and it is exactly 100
  when every question earns 100 points.
\<close>

theorem grade_coding_spec:
  "code_points c =
     (if 20 < length (strip c) then 30 else 0)
     + (if py_in ''def '' c \<or> py_in ''function '' c then 30 else 0)
     + (if py_in ''return'' c then 40 else 0)
   \<and> code_points [] = 0
   \<and> (20 < length (strip c) \<and> (py_in ''def '' c \<or> py_in ''function '' c) \<and> py_in ''return'' c
        \<longrightarrow> code_points c = 100)
   \<and> code_points c \<le> 100
   \<and> coding_details (grade_coding_answers qs answers) = map (coding_detail_of answers) qs
   \<and> (\<forall>q\<in>set qs. answers (code_id q) = None \<or> answers (code_id q) = Some []
         \<longrightarrow> code_score (coding_detail_of answers q) = 0)
   \<and> coding_score (grade_coding_answers qs answers)
       = (if qs = [] then 0
          else fl (fl (of_nat (sum_list (map (\<lambda>q. code_points (answer_of answers q)) qs))
                 / of_nat (length qs * 100)) * 100))
   \<and> \<bar>coding_score (grade_coding_answers qs answers)
        - of_nat (sum_list (map (\<lambda>q. code_points (answer_of answers q)) qs))
            / of_nat (length qs * 100) * 100\<bar>
       \<le> of_nat (sum_list (map (\<lambda>q. code_points (answer_of answers q)) qs))
            / of_nat (length qs * 100) * 100 / 2 ^ 51
   \<and> (qs \<noteq> [] \<and> (\<forall>q\<in>set qs. code_points (answer_of answers q) = 100)
        \<longrightarrow> coding_score (grade_coding_answers qs answers) = 100)"
proof -
  let ?sum = "sum_list (map (\<lambda>q. code_points (answer_of answers q)) qs)"
  have e: "code_points [] = 0"
    by (simp add: code_points_eq strip_Nil startswith_def)
  have f: "20 < length (strip c) \<and> (py_in ''def '' c \<or> py_in ''function '' c) \<and> py_in ''return'' c
        \<longrightarrow> code_points c = 100"
    by (simp add: code_points_eq)
  have b: "code_points c \<le> 100"
    by (simp add: code_points_eq)
  have d: "coding_details (grade_coding_answers qs answers) = map (coding_detail_of answers) qs"
    by (simp add: grade_coding_answers_def grade_coding_loop_eq Let_def)
  have z: "\<forall>q\<in>set qs. answers (code_id q) = None \<or> answers (code_id q) = Some []
         \<longrightarrow> code_score (coding_detail_of answers q) = 0"
    using e by (auto simp add: coding_detail_of_def answer_of_def)
  have s: "coding_score (grade_coding_answers qs answers)
       = (if qs = [] then 0
          else fl (fl (of_nat ?sum / of_nat (length qs * 100)) * 100))"
    by (simp add: grade_coding_answers_def grade_coding_loop_eq Let_def)
  have r: "\<bar>coding_score (grade_coding_answers qs answers)
        - of_nat ?sum / of_nat (length qs * 100) * 100\<bar>
       \<le> of_nat ?sum / of_nat (length qs * 100) * 100 / 2 ^ 51"
  proof (cases "qs = []")
    case True
    show ?thesis unfolding s using True by simp
  next
    case False
    have "(0::rat) \<le> of_nat ?sum / of_nat (length qs * 100)"
      by (rule divide_nonneg_nonneg) simp_all
    then show ?thesis
      unfolding s using False by (simp only: if_False) (rule fl_scaled_error)
  qed
  have h: "qs \<noteq> [] \<and> (\<forall>q\<in>set qs. code_points (answer_of answers q) = 100)
        \<longrightarrow> coding_score (grade_coding_answers qs answers) = 100"
  proof
    assume a: "qs \<noteq> [] \<and> (\<forall>q\<in>set qs. code_points (answer_of answers q) = 100)"
    then have "?sum = length qs * 100"
      by (intro sum_list_all_hundred) simp
    then have "(of_nat ?sum :: rat) / of_nat (length qs * 100) = 1"
      using a by simp
    then have "fl (fl (of_nat ?sum / of_nat (length qs * 100)) * 100) = 100"
      by (simp only: fl_one mult_1 fl_hundred)
    then show "coding_score (grade_coding_answers qs answers) = 100"
      using a by (simp only: s if_False)
  qed
  from code_points_eq e f b d z s r h show ?thesis by (intro conjI)
qed

theorem grade_coding_spec_witness:
  "20 < length (strip ''def double(n):\<newline>    return n * 2'')
   \<and> py_in ''def '' ''def double(n):\<newline>    return n * 2''
   \<and> py_in ''return'' ''def double(n):\<newline>    return n * 2''
   \<and> code_points ''def double(n):\<newline>    return n * 2'' = 100"
proof -
  have h1: "20 < length (strip ''def double(n):\<newline>    return n * 2'')"
    by code_simp
  have h2: "py_in ''def '' ''def double(n):\<newline>    return n * 2''"
    by code_simp
  have h3: "py_in ''return'' ''def double(n):\<newline>    return n * 2''"
    by code_simp
  have "20 < length (strip ''def double(n):\<newline>    return n * 2'')
      \<and> (py_in ''def '' ''def double(n):\<newline>    return n * 2''
          \<or> py_in ''function '' ''def double(n):\<newline>    return n * 2'')
      \<and> py_in ''return'' ''def double(n):\<newline>    return n * 2''
      \<longrightarrow> code_points ''def double(n):\<newline>    return n * 2'' = 100"
    using grade_coding_spec [of "''def double(n):\<newline>    return n * 2''" "[]" Map.empty]
    by (elim conjE)
  with h1 h2 h3 have "code_points ''def double(n):\<newline>    return n * 2'' = 100"
    by (elim impE) (intro conjI disjI1, assumption+)
  with h1 h2 h3 show ?thesis by (intro conjI)
qed

text \<open>
  On the fallback bank, a first answer that earns 70 points and a second that earns 40
  score the float 55.00000000000001, where 100 * 110 / (100 * 2) is 55.
\<close>

theorem grade_coding_float_counterexample:
  "map code_score (coding_details (grade_coding_answers CODING_FALLBACK
      [''code1'' \<mapsto> ''x = compute(); return x + 1'', ''code2'' \<mapsto> ''return 1''])) = [70, 40]
   \<and> coding_score (grade_coding_answers CODING_FALLBACK
      [''code1'' \<mapsto> ''x = compute(); return x + 1'', ''code2'' \<mapsto> ''return 1''])
       = 7740561859543041 / 140737488355328
   \<and> coding_score (grade_coding_answers CODING_FALLBACK
      [''code1'' \<mapsto> ''x = compute(); return x + 1'', ''code2'' \<mapsto> ''return 1''])
       \<noteq> 100 * (70 + 40) / (100 * 2)"
proof -
  have a: "map code_score (coding_details (grade_coding_answers CODING_FALLBACK
      [''code1'' \<mapsto> ''x = compute(); return x + 1'', ''code2'' \<mapsto> ''return 1''])) = [70, 40]"
    by code_simp
  have s: "coding_score (grade_coding_answers CODING_FALLBACK
      [''code1'' \<mapsto> ''x = compute(); return x + 1'', ''code2'' \<mapsto> ''return 1''])
       = 7740561859543041 / 140737488355328"
    by code_simp
  have n: "coding_score (grade_coding_answers CODING_FALLBACK
      [''code1'' \<mapsto> ''x = compute(); return x + 1'', ''code2'' \<mapsto> ''return 1''])
       \<noteq> 100 * (70 + 40) / (100 * 2)"
    unfolding s by simp
  from a s n show ?thesis by (intro conjI)
qed

subsection \<open>Heuristic parser: substrings and years\<close>

lemma startswith_iff: "startswith s sub \<longleftrightarrow> (\<exists>q. s = sub @ q)"
  unfolding startswith_def
  by (metis append_eq_conv_conj append_take_drop_id)

lemma py_in_iff: "py_in sub s \<longleftrightarrow> (\<exists>p q. s = p @ sub @ q)"
proof (induction s)
  case Nil
  then show ?case by auto
next
  case (Cons c cs)
  show ?case
  proof
    assume "py_in sub (c # cs)"
    then consider "startswith (c # cs) sub" | "py_in sub cs" by auto
    then show "\<exists>p q. c # cs = p @ sub @ q"
    proof cases
      case 1
      then obtain q where "c # cs = sub @ q" using startswith_iff by blast
      then have "c # cs = [] @ sub @ q" by simp
      then show ?thesis by blast
    next
      case 2
      then obtain p q where "cs = p @ sub @ q" using Cons.IH by blast
      then have "c # cs = (c # p) @ sub @ q" by simp
      then show ?thesis by blast
    qed
  next
    assume "\<exists>p q. c # cs = p @ sub @ q"
    then obtain p q where pq: "c # cs = p @ sub @ q" by blast
    show "py_in sub (c # cs)"
    proof (cases p)
      case Nil
      then have "startswith (c # cs) sub" using pq startswith_iff by auto
      then show ?thesis by simp
    next
      case (Cons a p')
      then have "cs = p' @ sub @ q" using pq by simp
      then have "py_in sub cs" using Cons.IH by blast
      then show ?thesis by simp
    qed
  qed
qed

lemma has_keyword_iff:
  "has_keyword kws line \<longleftrightarrow> (\<exists>k\<in>set kws. \<exists>p q. lower line = p @ lower k @ q)"
  by (simp add: has_keyword_def list_ex_iff py_in_iff)

lemma parse_education_loop_eq:
  "parse_education_loop ls acc = acc @ map education_of_line (filter education_line ls)"
  by (induction ls arbitrary: acc)
     (simp_all add: education_line_def education_of_line_def Let_def)

lemma max_year_eq:
  "max_year ys = (if ys = [] then None else Some (Max (set ys)))"
proof (cases ys)
  case Nil
  then show ?thesis by (simp add: max_year_def)
next
  case (Cons y ys')
  have "fold max ys' y = Max (set (y # ys'))"
    by (rule Max.set_eq_fold [symmetric])
  then show ?thesis unfolding Cons by (simp add: max_year_def)
qed

lemma year_at_cases:
  assumes "year_at s"
  shows "\<exists>a b c d rest. s = a # b # c # d # rest
      \<and> ((a = CHR ''1'' \<and> b = CHR ''9'') \<or> (a = CHR ''2'' \<and> b = CHR ''0''))
      \<and> is_digit c \<and> is_digit d"
  using assms by (auto simp add: year_at_def split: list.splits)

lemma is_digit_word: "is_digit c \<Longrightarrow> is_word c"
  by (simp add: is_digit_def is_word_def Let_def)

lemma is_digit_literals:
  "is_digit CHR ''0''" "is_digit CHR ''1''" "is_digit CHR ''2''" "is_digit CHR ''9''"
  by (simp_all add: is_digit_def)

lemma year_at_word:
  assumes "year_at (a # cs)"
  shows "is_word a \<and> (\<exists>b c d rest. cs = b # c # d # rest \<and> is_word b \<and> is_word c \<and> is_word d)"
proof -
  obtain a' b c d rest where s: "a # cs = a' # b # c # d # rest"
    and ab: "(a' = CHR ''1'' \<and> b = CHR ''9'') \<or> (a' = CHR ''2'' \<and> b = CHR ''0'')"
    and cd: "is_digit c" "is_digit d"
    using year_at_cases [OF assms] by blast
  have "is_digit a' \<and> is_digit b" using ab is_digit_literals by blast
  then show ?thesis using s cd by (auto intro: is_digit_word)
qed

lemma digit_value_range: "is_digit c \<Longrightarrow> 0 \<le> digit_value c \<and> digit_value c \<le> 9"
  by (auto simp add: is_digit_def digit_value_def Let_def)

lemma digit_value_literals:
  "digit_value CHR ''0'' = 0" "digit_value CHR ''1'' = 1" "digit_value CHR ''2'' = 2"
  "digit_value CHR ''9'' = 9"
  by (simp_all add: digit_value_def)

lemma year_value_range:
  assumes "year_at s"
  shows "1900 \<le> year_value s \<and> year_value s \<le> 2099"
proof -
  obtain a b c d rest where s: "s = a # b # c # d # rest"
    and ab: "(a = CHR ''1'' \<and> b = CHR ''9'') \<or> (a = CHR ''2'' \<and> b = CHR ''0'')"
    and cd: "is_digit c" "is_digit d"
    using year_at_cases [OF assms] by blast
  have v: "year_value s = 1000 * digit_value a + 100 * digit_value b + 10 * digit_value c
      + digit_value d"
    by (simp add: year_value_def s)
  have c: "0 \<le> digit_value c \<and> digit_value c \<le> 9" and d: "0 \<le> digit_value d \<and> digit_value d \<le> 9"
    using cd digit_value_range by blast+
  from ab show ?thesis
  proof
    assume "a = CHR ''1'' \<and> b = CHR ''9''"
    then show ?thesis using c d by (simp add: v digit_value_literals)
  next
    assume "a = CHR ''2'' \<and> b = CHR ''0''"
    then show ?thesis using c d by (simp add: v digit_value_literals)
  qed
qed

lemma year_occurs_Nil: "\<not> year_occurs pw [] y"
  by (simp add: year_occurs_def year_at_def)

lemma year_occurs_Cons:
  "year_occurs pw (c # cs) y \<longleftrightarrow>
     (\<not> pw \<and> year_at (c # cs) \<and> y = year_value (c # cs)) \<or> year_occurs (is_word c) cs y"
proof
  assume "year_occurs pw (c # cs) y"
  then obtain p r where pr: "c # cs = p @ r" "year_at r" "y = year_value r"
      "if p = [] then \<not> pw else \<not> is_word (last p)"
    unfolding year_occurs_def by blast
  show "(\<not> pw \<and> year_at (c # cs) \<and> y = year_value (c # cs)) \<or> year_occurs (is_word c) cs y"
  proof (cases p)
    case Nil
    then show ?thesis using pr by simp
  next
    case (Cons a p')
    then have "cs = p' @ r" and "a = c" using pr(1) by simp_all
    moreover have "if p' = [] then \<not> is_word c else \<not> is_word (last p')"
      using pr(4) Cons \<open>a = c\<close> by (auto split: if_splits)
    ultimately have "year_occurs (is_word c) cs y"
      unfolding year_occurs_def using pr(2,3) by blast
    then show ?thesis by simp
  qed
next
  assume "(\<not> pw \<and> year_at (c # cs) \<and> y = year_value (c # cs)) \<or> year_occurs (is_word c) cs y"
  then show "year_occurs pw (c # cs) y"
  proof
    assume a: "\<not> pw \<and> year_at (c # cs) \<and> y = year_value (c # cs)"
    have "c # cs = [] @ (c # cs)" by simp
    with a show ?thesis unfolding year_occurs_def by (metis (full_types))
  next
    assume "year_occurs (is_word c) cs y"
    then obtain p r where pr: "cs = p @ r" "year_at r" "y = year_value r"
      "if p = [] then \<not> is_word c else \<not> is_word (last p)"
      unfolding year_occurs_def by blast
    have "c # cs = (c # p) @ r" using pr(1) by simp
    moreover have "if c # p = [] then \<not> pw else \<not> is_word (last (c # p))"
      using pr(4) by (auto split: if_splits)
    ultimately show ?thesis unfolding year_occurs_def using pr(2,3) by blast
  qed
qed

lemma year_occurs_skip:
  assumes "year_at (c # cs)"
  shows "year_occurs (is_word c) cs y \<longleftrightarrow> year_occurs True (drop 3 cs) y"
proof -
  obtain b c' d rest where cs: "cs = b # c' # d # rest"
    and w: "is_word c" "is_word b" "is_word c'" "is_word d"
    using year_at_word [OF assms] by blast
  show ?thesis
    by (simp add: cs w year_occurs_Cons)
qed

lemma scan_years_occurs: "y \<in> set (scan_years pw s) \<longleftrightarrow> year_occurs pw s y"
proof (induction pw s rule: scan_years.induct)
  case (1 pw)
  then show ?case by (simp add: year_occurs_Nil)
next
  case (2 pw c cs)
  show ?case
  proof (cases "\<not> pw \<and> year_at (c # cs)")
    case True
    then have "y \<in> set (scan_years pw (c # cs))
        \<longleftrightarrow> y = year_value (c # cs) \<or> year_occurs True (drop 3 cs) y"
      using 2(1) by simp
    also have "\<dots> \<longleftrightarrow> y = year_value (c # cs) \<or> year_occurs (is_word c) cs y"
      using True year_occurs_skip by simp
    also have "\<dots> \<longleftrightarrow> year_occurs pw (c # cs) y"
      using True by (simp add: year_occurs_Cons)
    finally show ?thesis .
  next
    case False
    then have "y \<in> set (scan_years pw (c # cs)) \<longleftrightarrow> year_occurs (is_word c) cs y"
      using 2(2) by auto
    also have "\<dots> \<longleftrightarrow> year_occurs pw (c # cs) y"
      using False by (auto simp add: year_occurs_Cons)
    finally show ?thesis .
  qed
qed

lemma extract_years_occurs: "set (extract_years line) = {y. year_occurs False line y}"
  by (auto simp add: extract_years_def scan_years_occurs)

subsection \<open>Heuristic parser: education lines\<close>

text \<open>
  Claim C8 (the education lines are those longer than 10 characters that contain an
  education marker). The loop skips a line whose trimmed length is below 12, so the
  statement proved is: for every text, \<open>parse_education\<close> returns, in document order and
  capped to the first 4, exactly the lines of \<^verbatim>\<open>splitlines\<close> whose trimmed length is at
  least 12 and whose lower-cased text contains a lower-cased education marker, each as
  its trimmed text with the maximum of the years 1900..2099 that stand in the line as
  whole words, or none when there is no such year.
\<close>

theorem parse_education_spec:
  "parse_education text
     = take 4 (map education_of_line (filter education_line (splitlines text)))
   \<and> (education_line line \<longleftrightarrow>
        12 \<le> length (strip line)
        \<and> (\<exists>k\<in>set education_keywords. \<exists>p q. lower line = p @ lower k @ q))
   \<and> description (education_of_line line) = strip line
   \<and> year (education_of_line line)
       = (if \<exists>y. year_occurs False line y then Some (Max {y. year_occurs False line y})
          else None)
   \<and> (\<forall>y. year_occurs False line y \<longrightarrow> 1900 \<le> y \<and> y \<le> 2099)"
proof -
  have a: "parse_education text
     = take 4 (map education_of_line (filter education_line (splitlines text)))"
    by (simp add: parse_education_def parse_education_loop_eq)
  have b: "education_line line \<longleftrightarrow>
        12 \<le> length (strip line)
        \<and> (\<exists>k\<in>set education_keywords. \<exists>p q. lower line = p @ lower k @ q)"
    by (simp add: education_line_def has_keyword_iff not_less)
  have c: "description (education_of_line line) = strip line"
    by (simp add: education_of_line_def)
  have "extract_years line = [] \<longleftrightarrow> \<not> (\<exists>y. year_occurs False line y)"
    using extract_years_occurs [of line] by auto
  then have d: "year (education_of_line line)
       = (if \<exists>y. year_occurs False line y then Some (Max {y. year_occurs False line y})
          else None)"
    by (simp add: education_of_line_def max_year_eq extract_years_occurs)
  have e: "\<forall>y. year_occurs False line y \<longrightarrow> 1900 \<le> y \<and> y \<le> 2099"
    unfolding year_occurs_def using year_value_range by blast
  from a b c d e show ?thesis by blast
qed

theorem parse_education_spec_witness:
  "parse_education ''Jane Doe\<newline>Bachelor of Science, MIT 2015-2019\<newline>Python, Docker''
     = [\<lparr>description = ''Bachelor of Science, MIT 2015-2019'', year = Some 2019\<rparr>]"
proof -
  have "parse_education ''Jane Doe\<newline>Bachelor of Science, MIT 2015-2019\<newline>Python, Docker''
     = take 4 (map education_of_line (filter education_line
         (splitlines ''Jane Doe\<newline>Bachelor of Science, MIT 2015-2019\<newline>Python, Docker'')))"
    using parse_education_spec
      [of "''Jane Doe\<newline>Bachelor of Science, MIT 2015-2019\<newline>Python, Docker''" "[]"]
    by (elim conjE)
  also have "\<dots> = [\<lparr>description = ''Bachelor of Science, MIT 2015-2019'', year = Some 2019\<rparr>]"
    by code_simp
  finally show ?thesis .
qed

text \<open>
  The line \<^verbatim>\<open>PhD Physics\<close> has 11 characters and contains a marker, and is not
  reported. In \<^verbatim>\<open>MSc2019\<close> the year is not a word of its own, and no year is reported.
\<close>

theorem parse_education_threshold_counterexample:
  "10 < length ''PhD Physics''
   \<and> has_keyword education_keywords ''PhD Physics''
   \<and> parse_education ''PhD Physics'' = []
   \<and> parse_education ''Master of Science MSc2019''
       = [\<lparr>description = ''Master of Science MSc2019'', year = None\<rparr>]"
  by code_simp

subsection \<open>Heuristic parser: runs\<close>

lemma parse_work_loop_role:
  "map role (parse_work_experience_loop draws ls k acc)
     = map role acc @ map strip (filter work_line ls)"
  by (induction ls arbitrary: k acc) (simp_all add: work_line_def Let_def)

lemma parse_work_loop_year:
  "map wyear (parse_work_experience_loop draws ls k acc)
     = map wyear acc @ map (\<lambda>l. max_year (extract_years l)) (filter work_line ls)"
  by (induction ls arbitrary: k acc) (simp_all add: work_line_def Let_def)

lemma parse_work_loop_step:
  "parse_work_experience_loop draws (l # ls) k acc =
     (if work_line l
      then parse_work_experience_loop draws ls (Suc k)
             (acc @ [\<lparr>role = strip l, wyear = max_year (extract_years l), duration = draws k\<rparr>])
      else parse_work_experience_loop draws ls k acc)"
  by (simp add: work_line_def Let_def)

lemma parse_work_loop_duration:
  "map duration (parse_work_experience_loop draws ls k acc)
     = map duration acc @ map draws [k ..< k + length (filter work_line ls)]"
proof (induction ls arbitrary: k acc)
  case Nil
  then show ?case by simp
next
  case (Cons l ls)
  let ?n = "length (filter work_line ls)"
  show ?case
  proof (cases "work_line l")
    case True
    have "k < k + Suc ?n" by simp
    then have "[k ..< k + Suc ?n] = k # [Suc k ..< k + Suc ?n]"
      by (rule upt_conv_Cons)
    then have u: "[k ..< k + Suc ?n] = k # [Suc k ..< Suc k + ?n]"
      by (simp del: upt_Suc)
    have "map duration (parse_work_experience_loop draws (l # ls) k acc)
        = map duration acc @ draws k # map draws [Suc k ..< Suc k + ?n]"
      using True by (simp only: parse_work_loop_step Cons.IH if_True) simp
    also have "\<dots> = map duration acc @ map draws [k ..< k + Suc ?n]"
      by (simp only: u list.map)
    also have "k + Suc ?n = k + length (filter work_line (l # ls))"
      using True by simp
    finally show ?thesis .
  next
    case False
    then show ?thesis
      by (simp only: parse_work_loop_step Cons.IH if_False filter.simps)
  qed
qed

lemma take_upt_min: "take m [0 ..< n] = [0 ..< min m n]"
proof (cases "m \<le> n")
  case True
  then show ?thesis by (simp add: min_absorb1)
next
  case False
  then show ?thesis by (simp add: min_absorb2)
qed

lemma parse_tech_stacks_loop_eq:
  "parse_tech_stacks_loop techs text_upper found
     = found \<union> {tech \<in> set techs. py_in (upper tech) text_upper}"
  by (induction techs arbitrary: found) auto

lemma parse_work_length:
  "length (parse_work_experience draws text) = min 6 (length (filter work_line (splitlines text)))"
proof -
  have "length (parse_work_experience draws text)
      = length (map role (parse_work_experience draws text))" by simp
  also have "\<dots> = min 6 (length (filter work_line (splitlines text)))"
    unfolding parse_work_experience_def take_map [symmetric]
    by (simp add: parse_work_loop_role min.commute)
  finally show ?thesis .
qed

text \<open>
  Claim C9 (two runs of the heuristic parser on the same text give identical outputs,
  durations included). \<open>parse_tech_stacks\<close> and \<open>parse_education\<close> take the text only,
  and the skills come out as the sorted duplicate-free list of the vocabulary entries
  found. \<open>parse_work_experience\<close> also reads the random generator: for any two runs
  \<open>d1\<close> and \<open>d2\<close> of the generator the outputs have the same length and the same roles and
  years, while the durations are the successive draws of the run, each between 1 and 4
  when the draws are.
\<close>

theorem heuristic_parser_runs:
  "sorted (parse_tech_stacks text) \<and> distinct (parse_tech_stacks text)
   \<and> set (parse_tech_stacks text) = {tech \<in> set TECH_KEYWORDS. py_in (upper tech) (upper text)}
   \<and> length (parse_work_experience d1 text) = length (parse_work_experience d2 text)
   \<and> map role (parse_work_experience d1 text) = map role (parse_work_experience d2 text)
   \<and> map wyear (parse_work_experience d1 text) = map wyear (parse_work_experience d2 text)
   \<and> map duration (parse_work_experience d1 text)
       = map d1 [0 ..< length (parse_work_experience d1 text)]
   \<and> ((\<forall>k. 1 \<le> d1 k \<and> d1 k \<le> 4)
        \<longrightarrow> (\<forall>e\<in>set (parse_work_experience d1 text). 1 \<le> duration e \<and> duration e \<le> 4))"
proof -
  have fin: "finite {tech \<in> set TECH_KEYWORDS. py_in (upper tech) (upper text)}" by simp
  have t: "parse_tech_stacks text
      = sorted_list_of_set {tech \<in> set TECH_KEYWORDS. py_in (upper tech) (upper text)}"
    by (simp add: parse_tech_stacks_def Let_def parse_tech_stacks_loop_eq)
  have t1: "sorted (parse_tech_stacks text) \<and> distinct (parse_tech_stacks text)"
    unfolding t by simp
  have t2: "set (parse_tech_stacks text)
      = {tech \<in> set TECH_KEYWORDS. py_in (upper tech) (upper text)}"
    unfolding t using fin by (rule set_sorted_list_of_set)
  have l: "length (parse_work_experience d1 text) = length (parse_work_experience d2 text)"
    by (simp add: parse_work_length)
  have r: "map role (parse_work_experience d1 text) = map role (parse_work_experience d2 text)"
    unfolding parse_work_experience_def take_map [symmetric]
    by (simp add: parse_work_loop_role)
  have y: "map wyear (parse_work_experience d1 text) = map wyear (parse_work_experience d2 text)"
    unfolding parse_work_experience_def take_map [symmetric]
    by (simp add: parse_work_loop_year)
  have "map duration (parse_work_experience d1 text)
      = take 6 (map d1 [0 ..< length (filter work_line (splitlines text))])"
    unfolding parse_work_experience_def take_map [symmetric]
    by (simp add: parse_work_loop_duration)
  also have "\<dots> = map d1 [0 ..< min 6 (length (filter work_line (splitlines text)))]"
    by (simp only: take_map take_upt_min)
  finally have d: "map duration (parse_work_experience d1 text)
       = map d1 [0 ..< length (parse_work_experience d1 text)]"
    by (simp add: parse_work_length)
  have b: "(\<forall>k. 1 \<le> d1 k \<and> d1 k \<le> 4)
        \<longrightarrow> (\<forall>e\<in>set (parse_work_experience d1 text). 1 \<le> duration e \<and> duration e \<le> 4)"
  proof (intro impI ballI)
    fix e assume rng: "\<forall>k. 1 \<le> d1 k \<and> d1 k \<le> 4"
      and e: "e \<in> set (parse_work_experience d1 text)"
    from e have "duration e \<in> set (map duration (parse_work_experience d1 text))" by simp
    then have "duration e \<in> set (map d1 [0 ..< length (parse_work_experience d1 text)])"
      by (simp only: d)
    then obtain k where "duration e = d1 k" by auto
    then show "1 \<le> duration e \<and> duration e \<le> 4" using rng by simp
  qed
  from t1 t2 l r y d b show ?thesis by blast
qed

theorem heuristic_parser_runs_witness:
  "map duration (parse_work_experience draws_of_first_run ''Software Engineer at Acme 2020'')
     = map draws_of_first_run
         [0 ..< length (parse_work_experience draws_of_first_run ''Software Engineer at Acme 2020'')]
   \<and> list_all (\<lambda>e. 1 \<le> duration e \<and> duration e \<le> 4)
        (parse_work_experience draws_of_first_run ''Software Engineer at Acme 2020'')"
proof -
  have h: "\<forall>k. 1 \<le> draws_of_first_run k \<and> draws_of_first_run k \<le> 4"
    by (simp add: draws_of_first_run_def)
  note r = heuristic_parser_runs [of "''Software Engineer at Acme 2020''" draws_of_first_run
      draws_of_second_run]
  from r have a: "map duration (parse_work_experience draws_of_first_run ''Software Engineer at Acme 2020'')
     = map draws_of_first_run
         [0 ..< length (parse_work_experience draws_of_first_run ''Software Engineer at Acme 2020'')]"
    by (elim conjE)
  from r have "(\<forall>k. 1 \<le> draws_of_first_run k \<and> draws_of_first_run k \<le> 4)
        \<longrightarrow> (\<forall>e\<in>set (parse_work_experience draws_of_first_run ''Software Engineer at Acme 2020'').
              1 \<le> duration e \<and> duration e \<le> 4)"
    by (elim conjE)
  with h have "\<forall>e\<in>set (parse_work_experience draws_of_first_run ''Software Engineer at Acme 2020'').
              1 \<le> duration e \<and> duration e \<le> 4"
    by (rule rev_mp)
  then have b: "list_all (\<lambda>e. 1 \<le> duration e \<and> duration e \<le> 4)
        (parse_work_experience draws_of_first_run ''Software Engineer at Acme 2020'')"
    by (simp only: list_all_iff)
  from a b show ?thesis by (rule conjI)
qed

text \<open>Two runs on the same line whose draws differ report different durations.\<close>

theorem heuristic_parser_duration_counterexample:
  "parse_work_experience draws_of_first_run ''Software Engineer at Acme 2020''
     = [\<lparr>role = ''Software Engineer at Acme 2020'', wyear = Some 2020, duration = 1\<rparr>]
   \<and> parse_work_experience draws_of_second_run ''Software Engineer at Acme 2020''
     = [\<lparr>role = ''Software Engineer at Acme 2020'', wyear = Some 2020, duration = 3\<rparr>]"
  by code_simp

subsection \<open>JSON recovery\<close>









end
